theory Spec2Isabelle
  imports Main "HOL-Library.AList"
begin

section \<open>Python exceptions\<close>

text \<open>
  Every \<open>raise\<close> of the source is a value: a function that can raise returns
  \<open>error + 'a\<close>, with \<open>Inl\<close> the exception. The three \<open>Duplicate\<close> errors are
  failed assertions of \<open>makemake\<close>, told apart by their messages ("program name ... has
  already been seen", "module name ... has already been defined", "external fn ... has
  already been defined"); \<open>AssertionError\<close> is any other failed \<open>assert\<close>. The fourth
  assertion of \<open>makemake\<close>, on an object file that already has a rule, never raises
  \<open>AssertionError\<close>: its message is built with \<open>"%f ..." % (this_src)\<close>, a float
  conversion of a string, which raises \<open>TypeError\<close>.
\<close>

datatype error =
    AssertionError
  | IndexError
  | KeyError
  | NameError
  | AttributeError
  | StopIteration
  | TypeError
  | DuplicateProgram
  | DuplicateModule
  | DuplicateExternalDefinition

section \<open>Statement classifier (flint/units/unit.py and flint/unit.py)\<close>

text \<open>
  A statement is the list of its tokens; a token is compared by its text, so the
  classifier is modelled over \<open>string list\<close>.
\<close>

type_synonym line = "string list"

subsection \<open>Keyword tables\<close>

text \<open>\<open>Unit.unit_types\<close> of flint/units/unit.py.\<close>

definition unit_types :: "string list" where
  "unit_types = [''program'', ''function'', ''subroutine'', ''module'', ''submodule'',
     ''block'', ''type'']"

text \<open>\<open>Unit.unit_types\<close> of flint/unit.py: the same list without \<open>type\<close>.\<close>

definition unit_types_unit_py :: "string list" where
  "unit_types_unit_py = [''program'', ''function'', ''subroutine'', ''module'',
     ''submodule'', ''block'']"

text \<open>\<open>Unit.intrinsic_types\<close> of flint/unit.py.\<close>

definition intrinsic_types :: "string list" where
  "intrinsic_types = [''integer'', ''real'', ''double'', ''complex'', ''character'',
     ''logical'']"

text \<open>
  The keywords that \<open>unit_prefix\<close> appends to the intrinsic types, in both files.
\<close>

definition prefix_keywords :: "string list" where
  "prefix_keywords = [''elemental'', ''impure'', ''non_recursive'', ''pure'', ''recursive'']"

text \<open>
  \<open>Unit.unit_prefix\<close>. In flint/units/unit.py the intrinsic types are
  \<open>Variable.intrinsic_types\<close>, a table of flint/variable.py; it is the parameter
  \<open>itypes\<close> of everything below that reads it.
\<close>

definition unit_prefix :: "string list \<Rightarrow> string list" where
  "unit_prefix itypes = itypes @ prefix_keywords"

subsection \<open>\<open>Unit.statement\<close>\<close>

text \<open>
  \<open>next((i for i, w in enumerate(line) if w in unit_types), -1)\<close>: the position of
  the first unit keyword; \<open>None\<close> stands for Python's \<open>-1\<close>.
\<close>

fun first_unit_index :: "string list \<Rightarrow> line \<Rightarrow> nat option" where
  "first_unit_index uts [] = None"
| "first_unit_index uts (w # ws) =
     (if w \<in> set uts then Some 0 else map_option Suc (first_unit_index uts ws))"

text \<open>
  The \<open>while True\<close> loop of \<open>Unit.statement\<close> over \<open>iter(line[:idx])\<close>. The
  argument is the current \<open>word\<close> followed by what the iterator still holds; the empty
  list is the \<open>StopIteration\<close> that leaves the loop, after which the method returns
  \<open>True\<close>. After an intrinsic type the next word is fetched: if it is an opening
  parenthesis, words are fetched up to the first closing one; then, in either case, one
  more word is fetched before the loop tests again.
\<close>

lemma length_after_paren:
  "length (dropWhile P ws) - Suc 0 < Suc (Suc (length ws))"
  using length_dropWhile_le [of P ws] by arith

function scan_prefix :: "string list \<Rightarrow> string list \<Rightarrow> line \<Rightarrow> bool" where
  "scan_prefix itypes uprefix [] = True"
| "scan_prefix itypes uprefix (word # words) =
     (if word \<in> set itypes then
        (case words of
           [] \<Rightarrow> True
         | word' # words' \<Rightarrow>
             if word' = ''(''
             then scan_prefix itypes uprefix (drop 1 (dropWhile (\<lambda>w. w \<noteq> '')'') words'))
             else scan_prefix itypes uprefix words')
      else if word \<notin> set uprefix then False
      else scan_prefix itypes uprefix words)"
  by pat_completeness auto
termination
  by (relation "measure (\<lambda>(itypes, uprefix, ws). length ws)")
    (auto simp: length_after_paren)

text \<open>\<open>Unit.statement\<close> of flint/units/unit.py.\<close>

definition statement :: "string list \<Rightarrow> line \<Rightarrow> bool" where
  "statement itypes line =
     (case first_unit_index unit_types line of
        Some 0 \<Rightarrow> True
      | Some idx \<Rightarrow> scan_prefix itypes (unit_prefix itypes) (take idx line)
      | None \<Rightarrow> False)"

text \<open>\<open>Unit.statement\<close> of flint/unit.py.\<close>

definition statement_unit_py :: "line \<Rightarrow> bool" where
  "statement_unit_py line =
     (case first_unit_index unit_types_unit_py line of
        Some 0 \<Rightarrow> True
      | Some idx \<Rightarrow> scan_prefix intrinsic_types (unit_prefix intrinsic_types) (take idx line)
      | None \<Rightarrow> False)"

subsection \<open>\<open>Unit.end_statement\<close>\<close>

text \<open>\<open>str.startswith\<close>.\<close>

definition startswith :: "string \<Rightarrow> string \<Rightarrow> bool" where
  "startswith s p = (take (length p) s = p)"

text \<open>
  \<open>Unit.end_statement\<close>, the same text in both files. \<open>utype\<close> is \<open>None\<close> until the
  header is parsed, and \<open>assert self.utype\<close> fails on \<open>None\<close> and on the empty string.
  \<open>line[0]\<close> raises on an empty line. A line whose first token does not start with
  \<open>end\<close> falls off the end of the method, which returns Python's \<open>None\<close>: the result
  is a \<open>bool option\<close>.
\<close>

definition end_statement :: "string option \<Rightarrow> line \<Rightarrow> error + bool option" where
  "end_statement utype line =
     (case utype of
        None \<Rightarrow> Inl AssertionError
      | Some k \<Rightarrow>
          if k = [] then Inl AssertionError
          else (case line of
                  [] \<Rightarrow> Inl IndexError
                | w # ws \<Rightarrow>
                    if startswith w ''end'' then
                      (if length line = 1 \<and> (w = ''end'' \<or> w = ''end'' @ k) then Inr (Some True)
                       else if length line \<ge> 2 \<and> (w, line ! 1) = (''end'', k) then Inr (Some True)
                       else Inr (Some False))
                    else Inr None))"

subsection \<open>The classifier as the specification words it\<close>

text \<open>
  \<open>closes_unit\<close> in the words of the specification: the line is \<open>end\<close>, \<open>end k\<close> or the
  fused \<open>endk\<close>, in each case with an optional trailing name (one more token).
\<close>

definition closes_unit_spec :: "string \<Rightarrow> line \<Rightarrow> bool" where
  "closes_unit_spec k line =
     (case line of
        [] \<Rightarrow> False
      | w # rest \<Rightarrow>
          (w = ''end'' \<and> length rest \<le> 1)
        \<or> (w = ''end'' \<and> take 1 rest = [k] \<and> length rest \<le> 2)
        \<or> (w = ''end'' @ k \<and> length rest \<le> 1))"

text \<open>
  The tokens after an opening parenthesis up to its matching closing one, at nesting
  depth \<open>d\<close>; \<open>None\<close> when the parenthesis is never closed.
\<close>

fun skip_balanced :: "nat \<Rightarrow> line \<Rightarrow> line option" where
  "skip_balanced d [] = None"
| "skip_balanced d (w # ws) =
     (if w = ''('' then skip_balanced (Suc d) ws
      else if w = '')'' then (case d of 0 \<Rightarrow> Some ws | Suc d' \<Rightarrow> skip_balanced d' ws)
      else skip_balanced d ws)"

lemma skip_balanced_length:
  "skip_balanced d ws = Some r \<Longrightarrow> length r < length ws"
  by (induction d ws rule: skip_balanced.induct) (auto split: if_splits nat.splits)

text \<open>
  A legal prefix in the words of the specification: every token before the unit keyword
  is one of the five prefix keywords, or an intrinsic-type keyword optionally followed
  by a balanced parenthesized kind selector.
\<close>

function legal_prefix_spec :: "string list \<Rightarrow> line \<Rightarrow> bool" where
  "legal_prefix_spec itypes [] = True"
| "legal_prefix_spec itypes (w # ws) =
     (if w \<in> set itypes then
        (case ws of
           [] \<Rightarrow> True
         | w' # ws' \<Rightarrow>
             if w' = ''('' then
               (case skip_balanced 0 ws' of
                  None \<Rightarrow> False
                | Some r \<Rightarrow> legal_prefix_spec itypes r)
             else legal_prefix_spec itypes ws)
      else w \<in> set prefix_keywords \<and> legal_prefix_spec itypes ws)"
  by pat_completeness auto
termination
  by (relation "measure (\<lambda>(itypes, ws). length ws)")
    (auto dest: skip_balanced_length)

subsection \<open>The prefixes \<open>Unit.statement\<close> accepts, as a grammar\<close>

text \<open>
  The token sequences before the unit keyword that the scan accepts: a prefix keyword;
  an intrinsic-type keyword at the very end; an intrinsic-type keyword followed by one
  token other than an opening parenthesis, which is passed over unread; an
  intrinsic-type keyword followed by an opening parenthesis and everything up to the
  first closing parenthesis; or the same with no closing parenthesis before the unit
  keyword.
\<close>

inductive accepted_prefix :: "string list \<Rightarrow> line \<Rightarrow> bool" for itypes :: "string list" where
  ap_end: "accepted_prefix itypes []"
| ap_keyword:
    "w \<notin> set itypes \<Longrightarrow> w \<in> set prefix_keywords \<Longrightarrow> accepted_prefix itypes ws
     \<Longrightarrow> accepted_prefix itypes (w # ws)"
| ap_type_last:
    "w \<in> set itypes \<Longrightarrow> accepted_prefix itypes [w]"
| ap_type_skip:
    "w \<in> set itypes \<Longrightarrow> x \<noteq> ''('' \<Longrightarrow> accepted_prefix itypes ws
     \<Longrightarrow> accepted_prefix itypes (w # x # ws)"
| ap_type_selector:
    "w \<in> set itypes \<Longrightarrow> '')'' \<notin> set sel \<Longrightarrow> accepted_prefix itypes ws
     \<Longrightarrow> accepted_prefix itypes (w # ''('' # sel @ '')'' # ws)"
| ap_type_open:
    "w \<in> set itypes \<Longrightarrow> '')'' \<notin> set sel
     \<Longrightarrow> accepted_prefix itypes (w # ''('' # sel)"

section \<open>Link lists (flint/tools/makemake.py)\<close>

text \<open>
  Object files are named by strings. A Python \<open>dict\<close> is an association list read with
  \<open>map_of\<close> and written with \<open>AList.update\<close>, which keeps the position of a key that is
  already there and appends a new one, as a \<open>dict\<close> does.
\<close>

type_synonym obj = string

text \<open>
  \<open>__generate_link_list(objects, needed_for_link_by, obj_list=[], level=0)\<close>. The two
  \<open>for\<close> loops are folds over the list being built; the recursive call is made with
  \<open>level + 1\<close>, and from level 100 on the function returns \<open>obj_list\<close> as it got it. The
  recursion is well-founded on \<open>100 - level\<close>.
\<close>

function generate_link_list ::
  "obj list \<Rightarrow> (obj \<times> obj list) list \<Rightarrow> obj list \<Rightarrow> nat \<Rightarrow> obj list" where
  "generate_link_list objects needed_for_link_by obj_list level =
     (if level \<le> 99 then
        fold (\<lambda>ob obj_list.
               if ob \<notin> set obj_list then
                 (case map_of needed_for_link_by ob of
                    Some ns \<Rightarrow>
                      fold (\<lambda>n obj_list.
                             generate_link_list [n] needed_for_link_by obj_list (level + 1))
                        ns (obj_list @ [ob])
                  | None \<Rightarrow> obj_list @ [ob])
               else obj_list)
          objects obj_list
      else obj_list)"
  by pat_completeness auto
termination
  by (relation "measure (\<lambda>(objects, needed_for_link_by, obj_list, level). 100 - level)") auto

text \<open>
  The objects that \<open>ob\<close> needs at link time, none when \<open>ob\<close> is no key of the
  dictionary, and the relation "needs" they define.
\<close>

definition needs :: "(obj \<times> obj list) list \<Rightarrow> obj \<Rightarrow> obj list" where
  "needs needed_for_link_by ob =
     (case map_of needed_for_link_by ob of Some ns \<Rightarrow> ns | None \<Rightarrow> [])"

definition needs_rel :: "(obj \<times> obj list) list \<Rightarrow> (obj \<times> obj) set" where
  "needs_rel needed_for_link_by = {(a, b). b \<in> set (needs needed_for_link_by a)}"

text \<open>
  Depth-first order, locally: when the object at position \<open>i\<close> of the list needs an
  object that is not among the first \<open>i + 1\<close> entries, the first such object is the next
  entry.
\<close>

definition follows_first_need :: "(obj \<times> obj list) list \<Rightarrow> obj list \<Rightarrow> nat \<Rightarrow> bool" where
  "follows_first_need nfl res i =
     (case find (\<lambda>n. n \<notin> set (take (Suc i) res)) (needs nfl (res ! i)) of
        None \<Rightarrow> True
      | Some n \<Rightarrow> Suc i < length res \<and> res ! Suc i = n)"

text \<open>
  The link list in the words of the specification: the closure in breadth order, round
  by round, each object listed once. A round lists the objects needed by the objects of
  the round before that are not listed yet; an object at distance \<open>d\<close> from the start has
  \<open>d\<close> keys of the dictionary on its path, so \<open>length nfl\<close> rounds reach everything.
\<close>

fun breadth_rounds :: "nat \<Rightarrow> (obj \<times> obj list) list \<Rightarrow> obj list \<Rightarrow> obj list \<Rightarrow> obj list" where
  "breadth_rounds 0 nfl frontier listed = listed"
| "breadth_rounds (Suc k) nfl frontier listed =
     (let new = fold (\<lambda>n acc. if n \<in> set listed \<or> n \<in> set acc then acc else acc @ [n])
                  (concat (map (needs nfl) frontier)) []
      in if new = [] then listed else breadth_rounds k nfl new (listed @ new))"

definition breadth_first_closure_spec :: "(obj \<times> obj list) list \<Rightarrow> obj \<Rightarrow> obj list" where
  "breadth_first_closure_spec nfl start = breadth_rounds (length nfl) nfl [start] [start]"

text \<open>A set of objects that holds whatever its members need.\<close>

definition closed_under_needs :: "(obj \<times> obj list) list \<Rightarrow> obj set \<Rightarrow> bool" where
  "closed_under_needs nfl S = (\<forall>x\<in>S. set (needs nfl x) \<subseteq> S)"

text \<open>
  Two dictionaries used as examples: the cycle of the specification (A needs B, B needs
  A), and a program object that needs two modules which both need a third.
\<close>

definition cyclic_needs :: "(obj \<times> obj list) list" where
  "cyclic_needs = [(''a.o'', [''b.o'']), (''b.o'', [''a.o''])]"

definition diamond_needs :: "(obj \<times> obj list) list" where
  "diamond_needs =
     [(''a.o'', [''b.o'', ''c.o'']), (''b.o'', [''d.o'']), (''c.o'', [''d.o'']), (''d.o'', [])]"

section \<open>The passes of \<open>makemake\<close> (flint/tools/makemake.py)\<close>

text \<open>
  \<open>str.lower\<close> is a builtin of Python that folds every cased letter of Unicode. The
  passes below take it as their first argument \<open>lower\<close>, of which nothing is assumed, so
  that what is proved of them holds of \<open>str.lower\<close> whatever the names are.

  Only the example projects need a function to run with. Their names are made of ASCII
  characters, and on a string of ASCII characters \<open>str.lower\<close> replaces the letters A to
  Z and nothing else; \<open>ascii_lower\<close> is that function, and it stands for \<open>str.lower\<close>
  on such strings only.
\<close>

definition ascii_lower_char :: "char \<Rightarrow> char" where
  "ascii_lower_char ch =
     (case map_of (zip ''ABCDEFGHIJKLMNOPQRSTUVWXYZ'' ''abcdefghijklmnopqrstuvwxyz'') ch of
        Some l \<Rightarrow> l
      | None \<Rightarrow> ch)"

definition ascii_lower :: "string \<Rightarrow> string" where
  "ascii_lower s = map ascii_lower_char s"


text \<open>
  \<open>str.replace(old, new)\<close>: every occurrence of \<open>old\<close>, left to right, without overlap.
  With an empty \<open>old\<close> Python puts \<open>new\<close> before every character and at the end.
\<close>

function replace :: "string \<Rightarrow> string \<Rightarrow> string \<Rightarrow> string" where
  "replace old new [] = (if old = [] then new else [])"
| "replace old new (ch # s) =
     (if old = [] then new @ ch # replace old new s
      else if take (length old) (ch # s) = old
        then new @ replace old new (drop (length old) (ch # s))
      else ch # replace old new s)"
  by pat_completeness auto
termination
  by (relation "measure (\<lambda>(old, new, s). length s)") auto

text \<open>\<open>this_src.split('/')[-1]\<close>: what follows the last slash.\<close>

definition basename :: "string \<Rightarrow> string" where
  "basename p = rev (takeWhile (\<lambda>ch. ch \<noteq> CHR ''/'') (rev p))"

text \<open>
  \<open>this_src.split('/')[-1].replace('.f90','.o').replace('.F90','.o')\<close>, the object file
  of a source file.
\<close>

definition object_file :: "string \<Rightarrow> obj" where
  "object_file this_src = replace ''.F90'' ''.o'' (replace ''.f90'' ''.o'' (basename this_src))"


text \<open>
  What \<open>makemake\<close> reads of a parsed \<open>Unit\<close>: its kind, its name (\<open>None\<close> for an
  anonymous unit), the modules it uses, the symbols it calls and its subprograms.
  \<open>used_modules\<close> and \<open>callees\<close> are Python sets; the lists give the order in which
  \<open>makemake\<close> iterates over them. A \<open>source\<close> is a parsed file of \<open>project.sources\<close>.
\<close>

datatype program_unit =
  Unit (utype: string) (name: "string option") (used_modules: "string list")
    (callees: "string list") (subprograms: "program_unit list")

record source =
  path :: string
  units :: "program_unit list"

text \<open>Sequencing: the first exception raised ends the run.\<close>

definition bind_error :: "error + 'a \<Rightarrow> ('a \<Rightarrow> error + 'b) \<Rightarrow> error + 'b" where
  "bind_error m f = (case m of Inl e \<Rightarrow> Inl e | Inr x \<Rightarrow> f x)"

text \<open>
  The dictionaries and lists that the first pass of \<open>makemake\<close> fills. The keys of
  \<open>programs\<close> are unit names, so \<open>None\<close> can be one.
\<close>

record first_pass_state =
  programs :: "(string option \<times> obj) list"
  src_to_obj :: "(string \<times> obj) list"
  modules_in_src :: "string list"
  all_objs :: "obj list"

text \<open>
  The body of \<open>for unit in src.units\<close> in the first pass: a program is registered under
  its name, a module under its lower-cased name, each after the assertion that the name
  is new. \<open>unit.name.lower()\<close> raises \<open>AttributeError\<close> on an anonymous module.
\<close>

definition first_pass_unit ::
  "(string \<Rightarrow> string) \<Rightarrow> obj \<Rightarrow> program_unit \<Rightarrow> first_pass_state \<Rightarrow> error + first_pass_state" where
  "first_pass_unit lower this_obj u st =
     bind_error
       (if utype u = ''program'' then
          (if name u \<in> fst ` set (programs st) then Inl DuplicateProgram
           else Inr (st\<lparr>programs := AList.update (name u) this_obj (programs st)\<rparr>))
        else Inr st)
       (\<lambda>st.
          if utype u = ''module'' then
            (case name u of
               None \<Rightarrow> Inl AttributeError
             | Some n \<Rightarrow>
                 if lower n \<in> set (modules_in_src st) then Inl DuplicateModule
                 else Inr (st\<lparr>modules_in_src := modules_in_src st @ [lower n]\<rparr>))
          else Inr st)"

fun first_pass_units ::
  "(string \<Rightarrow> string) \<Rightarrow> obj \<Rightarrow> program_unit list \<Rightarrow> first_pass_state \<Rightarrow> error + first_pass_state" where
  "first_pass_units lower this_obj [] st = Inr st"
| "first_pass_units lower this_obj (u # us) st =
     bind_error (first_pass_unit lower this_obj u st) (first_pass_units lower this_obj us)"

text \<open>
  The body of \<open>for src in project.sources\<close> in the first pass. When the object file
  is already in \<open>all_objs\<close> the assertion fails, and the message it builds,
  \<open>"%f would create an object file that already has a rule" % (this_src)\<close>, raises
  \<open>TypeError\<close>, since \<open>this_src\<close> is a string.
\<close>

definition first_pass_source :: "(string \<Rightarrow> string) \<Rightarrow> source \<Rightarrow> first_pass_state \<Rightarrow> error + first_pass_state" where
  "first_pass_source lower src st =
     (let this_src = path src;
          this_obj = object_file this_src;
          st = st\<lparr>src_to_obj := AList.update this_src this_obj (src_to_obj st)\<rparr>
      in if this_obj \<in> set (all_objs st) then Inl TypeError
         else first_pass_units lower this_obj (units src) (st\<lparr>all_objs := all_objs st @ [this_obj]\<rparr>))"

fun first_pass_sources :: "(string \<Rightarrow> string) \<Rightarrow> source list \<Rightarrow> first_pass_state \<Rightarrow> error + first_pass_state" where
  "first_pass_sources lower [] st = Inr st"
| "first_pass_sources lower (src # srcs) st =
     bind_error (first_pass_source lower src st) (first_pass_sources lower srcs)"

definition first_pass :: "(string \<Rightarrow> string) \<Rightarrow> source list \<Rightarrow> error + first_pass_state" where
  "first_pass lower sources =
     first_pass_sources lower sources
       \<lparr>programs = [], src_to_obj = [], modules_in_src = [], all_objs = []\<rparr>"

text \<open>
  \<open>if executable is not None\<close>: the single program is renamed. \<open>programs.pop\<close> of the
  first key followed by the assignment leaves the value under the new key.
\<close>

definition rename_executable ::
  "string option \<Rightarrow> (string option \<times> obj) list \<Rightarrow> error + (string option \<times> obj) list" where
  "rename_executable executable progs =
     (case executable of
        None \<Rightarrow> Inr progs
      | Some x \<Rightarrow>
          if \<not> length progs < 2 then Inl AssertionError
          else (case progs of
                  [] \<Rightarrow> Inl IndexError
                | (k, v) # rest \<Rightarrow> Inr (AList.update (Some x) v rest)))"

text \<open>
  The dictionaries of the second pass. \<open>bound_c\<close> is the variable \<open>c\<close> of
  \<open>for c in sub.callees\<close>: a local of \<open>makemake\<close>, unbound (\<open>None\<close>) until the loop has run
  once, and keeping its last value after the loop, across subprograms, units and files.
  \<open>source_locals\<close> are the three lists that are reset for every source file.
\<close>

record second_pass_state =
  object_file_for :: "(string \<times> obj) list"
  modules_used_by_object :: "(obj \<times> string list) list"
  externals_used_by_object :: "(obj \<times> string list) list"
  bound_c :: "string option"

record source_locals =
  uses_modules :: "string list"
  uses_externals :: "string list"
  modules_provided :: "string list"

text \<open>
  \<open>if unit.utype == 'module'\<close> in the second pass: the lower-cased name is mapped to the
  object file of the source.
\<close>

definition register_module ::
  "(string \<Rightarrow> string) \<Rightarrow> obj \<Rightarrow> program_unit \<Rightarrow> second_pass_state \<times> source_locals
     \<Rightarrow> error + second_pass_state \<times> source_locals" where
  "register_module lower this_obj u = (\<lambda>(st, loc).
     if utype u = ''module'' then
       (case name u of
          None \<Rightarrow> Inl AttributeError
        | Some n \<Rightarrow>
            if lower n \<in> set (modules_provided loc) then Inl DuplicateModule
            else Inr (st\<lparr>object_file_for := AList.update (lower n) this_obj (object_file_for st)\<rparr>,
                      loc\<lparr>modules_provided := modules_provided loc @ [lower n]\<rparr>))
     else Inr (st, loc))"

text \<open>\<open>for m in unit.used_modules\<close>: the used modules that the project defines.\<close>

definition collect_used_modules :: "(string \<Rightarrow> string) \<Rightarrow> string list \<Rightarrow> program_unit \<Rightarrow> source_locals \<Rightarrow> source_locals" where
  "collect_used_modules lower mods u loc =
     fold (\<lambda>m loc. if lower m \<in> set mods
                    then loc\<lparr>uses_modules := uses_modules loc @ [lower m]\<rparr> else loc)
       (used_modules u) loc"

text \<open>
  \<open>for c in sub.callees\<close>: the callees that are external symbols; the loop binds \<open>c\<close>.
\<close>

definition collect_callees ::
  "string list \<Rightarrow> program_unit \<Rightarrow> second_pass_state \<times> source_locals
     \<Rightarrow> second_pass_state \<times> source_locals" where
  "collect_callees externals sub =
     fold (\<lambda>c (st, loc).
            (st\<lparr>bound_c := Some c\<rparr>,
             if c \<in> set externals then loc\<lparr>uses_externals := uses_externals loc @ [c]\<rparr> else loc))
       (callees sub)"

text \<open>
  The body of \<open>for sub in unit.subprograms\<close>. When \<open>sub.name\<close> is an external symbol,
  the assertion and the assignment are made on \<open>c\<close>, as the source has it, not on
  \<open>sub.name\<close>; reading \<open>c\<close> while it is unbound raises \<open>NameError\<close>.
\<close>

definition register_subprogram ::
  "string list \<Rightarrow> obj \<Rightarrow> program_unit \<Rightarrow> second_pass_state \<times> source_locals
     \<Rightarrow> error + second_pass_state \<times> source_locals" where
  "register_subprogram externals this_obj sub stloc =
     (case collect_callees externals sub stloc of (st, loc) \<Rightarrow>
        if name sub \<in> Some ` set externals then
          (case bound_c st of
             None \<Rightarrow> Inl NameError
           | Some c \<Rightarrow>
               if c \<in> fst ` set (object_file_for st) then Inl DuplicateExternalDefinition
               else Inr (st\<lparr>object_file_for := AList.update c this_obj (object_file_for st)\<rparr>, loc))
        else Inr (st, loc))"

fun register_subprograms ::
  "string list \<Rightarrow> obj \<Rightarrow> program_unit list \<Rightarrow> second_pass_state \<times> source_locals
     \<Rightarrow> error + second_pass_state \<times> source_locals" where
  "register_subprograms externals this_obj [] stloc = Inr stloc"
| "register_subprograms externals this_obj (sub # subs) stloc =
     bind_error (register_subprogram externals this_obj sub stloc)
       (register_subprograms externals this_obj subs)"

text \<open>\<open>if unit.name in externals\<close>: the unit's own name is mapped to the object file.\<close>

definition register_external_unit ::
  "string list \<Rightarrow> obj \<Rightarrow> program_unit \<Rightarrow> second_pass_state \<times> source_locals
     \<Rightarrow> error + second_pass_state \<times> source_locals" where
  "register_external_unit externals this_obj u = (\<lambda>(st, loc).
     case name u of
       None \<Rightarrow> Inr (st, loc)
     | Some n \<Rightarrow>
         if n \<in> set externals then
           (if n \<in> fst ` set (object_file_for st) then Inl DuplicateExternalDefinition
            else Inr (st\<lparr>object_file_for := AList.update n this_obj (object_file_for st)\<rparr>, loc))
         else Inr (st, loc))"

text \<open>The body of \<open>for unit in src.units\<close> in the second pass.\<close>

definition second_pass_unit ::
  "(string \<Rightarrow> string) \<Rightarrow> string list \<Rightarrow> string list \<Rightarrow> obj \<Rightarrow> program_unit \<Rightarrow> second_pass_state \<times> source_locals
     \<Rightarrow> error + second_pass_state \<times> source_locals" where
  "second_pass_unit lower externals mods this_obj u stloc =
     bind_error (register_module lower this_obj u stloc) (\<lambda>(st, loc).
     bind_error (register_subprograms externals this_obj (subprograms u)
                   (st, collect_used_modules lower mods u loc))
       (register_external_unit externals this_obj u))"

fun second_pass_units ::
  "(string \<Rightarrow> string) \<Rightarrow> string list \<Rightarrow> string list \<Rightarrow> obj \<Rightarrow> program_unit list \<Rightarrow> second_pass_state \<times> source_locals
     \<Rightarrow> error + second_pass_state \<times> source_locals" where
  "second_pass_units lower externals mods this_obj [] stloc = Inr stloc"
| "second_pass_units lower externals mods this_obj (u # us) stloc =
     bind_error (second_pass_unit lower externals mods this_obj u stloc)
       (second_pass_units lower externals mods this_obj us)"

text \<open>
  The body of \<open>for src in project.sources\<close> in the second pass, without the lines it
  prints.
\<close>

definition second_pass_source ::
  "(string \<Rightarrow> string) \<Rightarrow> string list \<Rightarrow> first_pass_state \<Rightarrow> source \<Rightarrow> second_pass_state \<Rightarrow> error + second_pass_state" where
  "second_pass_source lower externals fp src st =
     (case map_of (src_to_obj fp) (path src) of
        None \<Rightarrow> Inl KeyError
      | Some this_obj \<Rightarrow>
          bind_error
            (second_pass_units lower externals (modules_in_src fp) this_obj (units src)
               (st, \<lparr>uses_modules = [], uses_externals = [], modules_provided = []\<rparr>))
            (\<lambda>(st, loc).
               let st = (if uses_modules loc \<noteq> []
                         then st\<lparr>modules_used_by_object :=
                                 AList.update this_obj (uses_modules loc) (modules_used_by_object st)\<rparr>
                         else st);
                   st = (if uses_externals loc \<noteq> []
                         then st\<lparr>externals_used_by_object :=
                                 AList.update this_obj (uses_externals loc) (externals_used_by_object st)\<rparr>
                         else st)
               in Inr st))"

fun second_pass_sources ::
  "(string \<Rightarrow> string) \<Rightarrow> string list \<Rightarrow> first_pass_state \<Rightarrow> source list \<Rightarrow> second_pass_state \<Rightarrow> error + second_pass_state" where
  "second_pass_sources lower externals fp [] st = Inr st"
| "second_pass_sources lower externals fp (src # srcs) st =
     bind_error (second_pass_source lower externals fp src st) (second_pass_sources lower externals fp srcs)"

definition second_pass ::
  "(string \<Rightarrow> string) \<Rightarrow> string list \<Rightarrow> first_pass_state \<Rightarrow> source list \<Rightarrow> error + second_pass_state" where
  "second_pass lower externals fp sources =
     second_pass_sources lower externals fp sources
       \<lparr>object_file_for = [], modules_used_by_object = [], externals_used_by_object = [],
        bound_c = None\<rparr>"

text \<open>
  The third pass: for every object file, the object files of the modules and external
  symbols it uses, each once, names without a provider being dropped.
\<close>

definition resolve_objects :: "(string \<times> obj) list \<Rightarrow> string list \<Rightarrow> obj list \<Rightarrow> obj list" where
  "resolve_objects off names objects =
     fold (\<lambda>m objects.
            case map_of off m of
              Some ob \<Rightarrow> if ob \<notin> set objects then objects @ [ob] else objects
            | None \<Rightarrow> objects)
       names objects"

definition third_pass :: "first_pass_state \<Rightarrow> second_pass_state \<Rightarrow> (obj \<times> obj list) list" where
  "third_pass fp st =
     fold (\<lambda>this_obj nfl.
            let objects = (case map_of (modules_used_by_object st) this_obj of
                             Some ms \<Rightarrow> resolve_objects (object_file_for st) ms []
                           | None \<Rightarrow> []);
                objects = (case map_of (externals_used_by_object st) this_obj of
                             Some es \<Rightarrow> resolve_objects (object_file_for st) es objects
                           | None \<Rightarrow> objects)
            in AList.update this_obj objects nfl)
       (map snd (src_to_obj fp)) []"

text \<open>
  The link rules: \<open>for prog in programs\<close>, the list computed from
  \<open>object_file_for[prog]\<close>, which raises \<open>KeyError\<close> when the program's name is no key of
  \<open>object_file_for\<close>.
\<close>

fun link_rules ::
  "(string \<times> obj) list \<Rightarrow> (obj \<times> obj list) list \<Rightarrow> (string option \<times> obj) list
     \<Rightarrow> error + (string option \<times> obj list) list" where
  "link_rules off nfl [] = Inr []"
| "link_rules off nfl ((prog, ob) # progs) =
     (case prog of
        None \<Rightarrow> Inl KeyError
      | Some p \<Rightarrow>
          (case map_of off p of
             None \<Rightarrow> Inl KeyError
           | Some start \<Rightarrow>
               bind_error (link_rules off nfl progs)
                 (\<lambda>rules. Inr ((prog, generate_link_list [start] nfl [] 0) # rules))))"

text \<open>
  \<open>makemake\<close> without its file output: the passes in order, and the link list of every
  program.
\<close>

definition makemake ::
  "(string \<Rightarrow> string) \<Rightarrow> source list \<Rightarrow> string list \<Rightarrow> string option \<Rightarrow> error + (string option \<times> obj list) list" where
  "makemake lower sources externals executable =
     bind_error (first_pass lower sources) (\<lambda>fp.
     bind_error (rename_executable executable (programs fp)) (\<lambda>progs.
     bind_error (second_pass lower externals fp sources) (\<lambda>st.
     link_rules (object_file_for st) (third_pass fp st) progs)))"

text \<open>
  The lower-cased names of the named modules among some units, and the names of the
  programs among them, in order.
\<close>

definition module_names :: "(string \<Rightarrow> string) \<Rightarrow> program_unit list \<Rightarrow> string list" where
  "module_names lower us =
     concat (map (\<lambda>u. if utype u = ''module''
                        then (case name u of Some n \<Rightarrow> [lower n] | None \<Rightarrow> []) else []) us)"

definition program_names :: "program_unit list \<Rightarrow> string option list" where
  "program_names us = map name (filter (\<lambda>u. utype u = ''program'') us)"





definition project_sources :: "source list" where
  "project_sources =
     [\<lparr>path = ''src/m.F90'',
       units = [Unit ''module'' (Some ''M'') [] []
                  [Unit ''subroutine'' (Some ''foo'') [] [''bar''] []]]\<rparr>,
      \<lparr>path = ''src/p.f90'',
       units = [Unit ''program'' (Some ''p'') [''m''] [] []]\<rparr>]"

definition unbound_sources :: "source list" where
  "unbound_sources =
     [\<lparr>path = ''src/m.F90'',
       units = [Unit ''module'' (Some ''M'') [] []
                  [Unit ''subroutine'' (Some ''foo'') [] [] []]]\<rparr>]"

section \<open>Declarations (flint/units/unit.py)\<close>

text \<open>
  Modelled from the spec: the token type (flint/lexer.py and flint/token.py are not
  under src/). A token has its comparison text, and carries the comment fragments
  attached before it (\<open>head\<close>) and after it (\<open>tail\<close>); Python compares a token with a
  string by its text.
\<close>

record token =
  tok_text :: string
  tok_head :: "string list"
  tok_tail :: "string list"

text \<open>
  Modelled from the spec: \<open>Variable\<close> (flint/variable.py is not under src/), a declared
  entity with its name, its declared type, its intent (\<open>None\<close> until set) and its
  doc-comment. \<open>Variable(tok, vtype)\<close> sets the first two.
\<close>

record variable =
  var_name :: token
  declared_type :: token
  intent :: "string option"
  docstring :: "string option"

text \<open>
  The fields of a \<open>Unit\<close> that the declaration parser writes. A \<open>Statement(line, tag)\<close>
  appended to \<open>self.statements\<close> is the pair of its tag and its line. \<open>report\<close> holds
  what was reported through \<open>self.report\<close>. Modelled from the spec: \<open>Report\<close>
  (flint/report.py is not under src/) records a diagnostic and returns.
\<close>

record unit_state =
  variables :: "variable list"
  namelists :: "(string \<times> token list) list"
  grp_docstr :: "string option"
  statements :: "(string \<times> token list) list"
  report :: "string list"

text \<open>\<open>next(tokens)\<close> on the iterator over the rest of the line.\<close>

definition next_token :: "token list \<Rightarrow> error + token \<times> token list" where
  "next_token tokens = (case tokens of [] \<Rightarrow> Inl StopIteration | tok # rest \<Rightarrow> Inr (tok, rest))"

text \<open>
  The truth value of \<open>tok\<close> in \<open>while tok\<close>: \<open>None\<close> and the empty string are false.
\<close>

definition truthy :: "token option \<Rightarrow> bool" where
  "truthy tok = (case tok of None \<Rightarrow> False | Some t \<Rightarrow> tok_text t \<noteq> [])"

text \<open>
  \<open>self.namelists[nml_group].append(tok)\<close>; the group is a key when this is reached, since
  it has just been assigned the empty list.
\<close>

definition append_member :: "string \<Rightarrow> token \<Rightarrow> (string \<times> token list) list \<Rightarrow> (string \<times> token list) list" where
  "append_member grp tok nml =
     (case map_of nml grp of
        Some members \<Rightarrow> AList.update grp (members @ [tok]) nml
      | None \<Rightarrow> nml)"

text \<open>
  The inner loop of \<open>parse_namelist\<close>, \<open>while tok and tok != '/'\<close>: a member is added,
  \<open>next(tokens, None)\<close> must be a comma, a slash or the end, and after a comma
  \<open>next(tokens)\<close> has no default: at the end of the line it raises \<open>StopIteration\<close>.
\<close>

fun namelist_members ::
  "string \<Rightarrow> token option \<Rightarrow> token list \<Rightarrow> (string \<times> token list) list
     \<Rightarrow> error + token option \<times> token list \<times> (string \<times> token list) list" where
  "namelist_members grp tok tokens nml =
     (case tok of
        None \<Rightarrow> Inr (tok, tokens, nml)
      | Some t \<Rightarrow>
          if tok_text t = [] \<or> tok_text t = ''/'' then Inr (tok, tokens, nml)
          else
            (case tokens of
               [] \<Rightarrow> Inr (None, [], append_member grp t nml)
             | t' # rest \<Rightarrow>
                 if tok_text t' \<noteq> '','' \<and> tok_text t' \<noteq> ''/'' then Inl AssertionError
                 else if tok_text t' = '','' then
                   (case rest of
                      [] \<Rightarrow> Inl StopIteration
                    | t'' # rest' \<Rightarrow> namelist_members grp (Some t'') rest' (append_member grp t nml))
                 else namelist_members grp (Some t') rest (append_member grp t nml)))"

declare namelist_members.simps [simp del]

lemma namelist_members_length:
  "namelist_members grp tok tokens nml = Inr (tok', tokens', nml') \<Longrightarrow> length tokens' \<le> length tokens"
proof (induction grp tok tokens nml rule: namelist_members.induct)
  case (1 grp tok tokens nml)
  note run = "1.prems" [unfolded namelist_members.simps [of grp tok tokens nml]]
  show ?case
  proof (cases tok)
    case None
    with run show ?thesis by simp
  next
    case (Some t)
    show ?thesis
    proof (cases "tok_text t = [] \<or> tok_text t = ''/''")
      case True
      with Some run show ?thesis by auto
    next
      case go: False
      show ?thesis
      proof (cases tokens)
        case Nil
        with Some go run show ?thesis by auto
      next
        case (Cons t' rest)
        show ?thesis
        proof (cases "tok_text t' = '',''")
          case comma: True
          show ?thesis
          proof (cases rest)
            case Nil
            with Some go Cons comma run show ?thesis by auto
          next
            case inner: (Cons t'' rest')
            with Some go Cons comma run
            have "namelist_members grp (Some t'') rest' (append_member grp t nml)
                = Inr (tok', tokens', nml')" by auto
            with "1.IH"(1) [OF Some go Cons _ comma inner] comma
            have "length tokens' \<le> length rest'" by simp
            with Cons inner show ?thesis by simp
          qed
        next
          case other: False
          with Some go Cons run
          have ok: "\<not> (tok_text t' \<noteq> '','' \<and> tok_text t' \<noteq> ''/'')"
            and "namelist_members grp (Some t') rest (append_member grp t nml)
                = Inr (tok', tokens', nml')" by (auto split: if_splits)
          with "1.IH"(2) [OF Some go Cons ok other]
          have "length tokens' \<le> length rest" by simp
          with Cons show ?thesis by simp
        qed
      qed
    qed
  qed
qed

text \<open>
  The outer loop of \<open>parse_namelist\<close>, \<open>while tok\<close>: a slash, the group name, a slash, and
  the members.
\<close>

function namelist_groups ::
  "token option \<Rightarrow> token list \<Rightarrow> (string \<times> token list) list
     \<Rightarrow> error + (string \<times> token list) list" where
  "namelist_groups tok tokens nml =
     (if \<not> truthy tok then Inr nml
      else if map_option tok_text tok \<noteq> Some ''/'' then Inl AssertionError
      else
        (case tokens of
           [] \<Rightarrow> Inl StopIteration
         | nml_group # tokens1 \<Rightarrow>
             (case tokens1 of
                [] \<Rightarrow> Inl StopIteration
              | slash # tokens2 \<Rightarrow>
                  if tok_text slash \<noteq> ''/'' then Inl AssertionError
                  else
                    (case tokens2 of
                       [] \<Rightarrow> Inl StopIteration
                     | t # tokens3 \<Rightarrow>
                         (case namelist_members (tok_text nml_group) (Some t) tokens3
                                 (AList.update (tok_text nml_group) [] nml) of
                            Inl e \<Rightarrow> Inl e
                          | Inr (tok', tokens', nml') \<Rightarrow> namelist_groups tok' tokens' nml')))))"
  by pat_completeness auto
termination
  by (relation "measure (\<lambda>(tok, tokens, nml). length tokens)")
    (auto dest: namelist_members_length)

text \<open>\<open>Unit.parse_namelist\<close>.\<close>

definition parse_namelist :: "token list \<Rightarrow> unit_state \<Rightarrow> error + unit_state" where
  "parse_namelist line st =
     (case line of
        [] \<Rightarrow> Inl IndexError
      | kw # tokens \<Rightarrow>
          if tok_text kw \<noteq> ''namelist'' then Inl AssertionError
          else
            (case tokens of
               [] \<Rightarrow> Inl StopIteration
             | tok # tokens' \<Rightarrow>
                 (case namelist_groups (Some tok) tokens' (namelists st) of
                    Inl e \<Rightarrow> Inl e
                  | Inr nml \<Rightarrow>
                      Inr (st\<lparr>namelists := nml, statements := statements st @ [(''N'', line)]\<rparr>))))"

text \<open>
  \<open>is_docstring\<close> and \<open>docstrip\<close> of flint/document.py, which is not under src/: they are
  parameters of the parser.
\<close>

record document =
  is_docstring :: "string list \<Rightarrow> bool"
  docstrip :: "string list \<Rightarrow> string"

text \<open>\<open>any(t.startswith(marker) for t in frags)\<close>.\<close>

definition has_marker :: "string \<Rightarrow> string list \<Rightarrow> bool" where
  "has_marker marker frags = list_ex (\<lambda>frag. startswith frag marker) frags"

text \<open>
  The markers that open and close a group docstring: \<open>!>@\<close> followed by an opening or a
  closing brace.
\<close>

definition group_open :: string where
  "group_open = ''!>@'' @ ''{''"

definition group_close :: string where
  "group_close = ''!>@'' @ ''}''"

text \<open>
  The test of the three doc attempts: the tail is a docstring and does not close a
  group.
\<close>

definition own_docstring :: "document \<Rightarrow> token \<Rightarrow> bool" where
  "own_docstring doc tok =
     (is_docstring doc (tok_tail tok) \<and> \<not> has_marker group_close (tok_tail tok))"

text \<open>\<open>self.grp_docstr\<close> when it is set and not empty.\<close>

definition group_docstring :: "unit_state \<Rightarrow> string option" where
  "group_docstring st =
     (case grp_docstr st of None \<Rightarrow> None | Some g \<Rightarrow> if g = [] then None else Some g)"

text \<open>
  An assignment to \<open>self.variables[-1]\<close>, or to \<open>var\<close>, which is the same object: the
  variable appended last.
\<close>

definition update_last :: "('a \<Rightarrow> 'a) \<Rightarrow> 'a list \<Rightarrow> 'a list" where
  "update_last f xs = (if xs = [] then [] else butlast xs @ [f (last xs)])"

text \<open>
  A doc attempt after the first: the docstring of the token's tail, else the group
  docstring, goes to the last variable.
\<close>

definition doc_attempt :: "document \<Rightarrow> token \<Rightarrow> unit_state \<Rightarrow> unit_state" where
  "doc_attempt doc tok st =
     (if own_docstring doc tok then
        st\<lparr>variables :=
             update_last (\<lambda>v. v\<lparr>docstring := Some (docstrip doc (tok_tail tok))\<rparr>) (variables st)\<rparr>
      else (case group_docstring st of
              Some g \<Rightarrow> st\<lparr>variables := update_last (\<lambda>v. v\<lparr>docstring := Some g\<rparr>) (variables st)\<rparr>
            | None \<Rightarrow> st))"

text \<open>
  \<open>while tok != ')': tok = next(tokens)\<close>, entered on an opening parenthesis: the first
  closing parenthesis and what follows it.
\<close>

definition skip_to_close :: "token list \<Rightarrow> error + token \<times> token list" where
  "skip_to_close tokens =
     (case dropWhile (\<lambda>t. tok_text t \<noteq> '')'') tokens of
        [] \<Rightarrow> Inl StopIteration
      | close # rest \<Rightarrow> Inr (close, rest))"

text \<open>
  The \<open>par_count\<close> loop of the \<open>dimension\<close> attribute: what follows the parenthesis that
  brings the count to zero.
\<close>

fun skip_parens :: "nat \<Rightarrow> token list \<Rightarrow> error + token list" where
  "skip_parens par_count [] = Inl StopIteration"
| "skip_parens par_count (tok # tokens) =
     (if tok_text tok = ''('' then skip_parens (par_count + 1) tokens
      else if tok_text tok = '')'' then
        (if par_count - 1 > 0 then skip_parens (par_count - 1) tokens else Inr tokens)
      else skip_parens par_count tokens)"

text \<open>The branch \<open>tok in ('type', 'class')\<close>: \<open>( vtype )\<close>.\<close>

definition base_type :: "token list \<Rightarrow> error + token \<times> token list" where
  "base_type tokens =
     bind_error (next_token tokens) (\<lambda>(paren, tokens).
       if tok_text paren \<noteq> ''('' then Inl AssertionError
       else bind_error (next_token tokens) (\<lambda>(vtype, tokens).
         bind_error (next_token tokens) (\<lambda>(close, tokens).
           if tok_text close \<noteq> '')'' then Inl AssertionError else Inr (vtype, tokens))))"

text \<open>
  After the base type: the length of a \<open>character*\<close> declaration and one parenthesized
  kind or length selector are passed over.
\<close>

definition after_type :: "token \<Rightarrow> token list \<Rightarrow> error + token \<times> token list" where
  "after_type vtype tokens =
     bind_error (next_token tokens) (\<lambda>(tok, tokens).
     bind_error (if tok_text vtype = ''character'' \<and> tok_text tok = ''*''
                 then next_token tokens else Inr (tok, tokens)) (\<lambda>(tok, tokens).
       if tok_text tok = ''('' then
         bind_error (skip_to_close tokens) (\<lambda>(close, tokens). next_token tokens)
       else Inr (tok, tokens)))"

text \<open>
  \<open>intent ( in | out | inout )\<close>, with \<open>in out\<close> read as \<open>inout\<close>; the result is the
  intent and the tokens after the closing parenthesis.
\<close>

definition intent_attribute :: "token list \<Rightarrow> error + string \<times> token list" where
  "intent_attribute tokens =
     bind_error (next_token tokens) (\<lambda>(tok, tokens).
       if tok_text tok \<noteq> ''('' then Inl AssertionError
       else bind_error (next_token tokens) (\<lambda>(var_intent, tokens).
         if tok_text var_intent \<notin> {''in'', ''out'', ''inout''} then Inl AssertionError
         else bind_error (next_token tokens) (\<lambda>(tok, tokens).
           bind_error (if tok_text var_intent = ''in'' \<and> tok_text tok = ''out''
                       then bind_error (next_token tokens)
                              (\<lambda>(tok, tokens). Inr (tok_text var_intent @ ''out'', tok, tokens))
                       else Inr (tok_text var_intent, tok, tokens))
             (\<lambda>(var_intent, tok, tokens).
                if tok_text tok \<noteq> '')'' then Inl AssertionError else Inr (var_intent, tokens)))))"

text \<open>\<open>dimension ( ... )\<close>.\<close>

definition dimension_attribute :: "token list \<Rightarrow> error + token list" where
  "dimension_attribute tokens =
     bind_error (next_token tokens) (\<lambda>(tok, tokens).
       if tok_text tok \<noteq> ''('' then Inl AssertionError else skip_parens 1 tokens)"

lemma skip_parens_length: "skip_parens n tokens = Inr rest \<Longrightarrow> length rest < length tokens"
  by (induction n tokens rule: skip_parens.induct) (auto split: if_splits)

lemma intent_attribute_length:
  "intent_attribute tokens = Inr (i, rest) \<Longrightarrow> length rest < length tokens"
  by (auto simp: intent_attribute_def next_token_def bind_error_def
      split: list.splits if_splits sum.splits prod.splits)

lemma dimension_attribute_length:
  "dimension_attribute tokens = Inr rest \<Longrightarrow> length rest < length tokens"
  by (auto simp: dimension_attribute_def next_token_def bind_error_def
      split: list.splits if_splits dest!: skip_parens_length)

text \<open>
  The loop \<open>while tok == ','\<close> over the attribute list. The result is the token that
  ended the loop, the rest of the line and the intent.
\<close>

function attributes ::
  "token \<Rightarrow> token list \<Rightarrow> string option \<Rightarrow> error + token \<times> token list \<times> string option" where
  "attributes tok tokens var_intent =
     (if tok_text tok \<noteq> '','' then Inr (tok, tokens, var_intent)
      else
        (case tokens of
           [] \<Rightarrow> Inl StopIteration
         | attr # tokens \<Rightarrow>
             (case (if tok_text attr = ''intent'' then
                      map_sum id (\<lambda>(i, tokens). (Some i, tokens)) (intent_attribute tokens)
                    else if tok_text attr = ''dimension'' then
                      map_sum id (\<lambda>tokens. (var_intent, tokens)) (dimension_attribute tokens)
                    else Inr (var_intent, tokens)) of
                Inl e \<Rightarrow> Inl e
              | Inr (var_intent, tokens) \<Rightarrow>
                  (case tokens of
                     [] \<Rightarrow> Inl StopIteration
                   | tok # tokens \<Rightarrow> attributes tok tokens var_intent))))"
  by pat_completeness auto
termination
proof (relation "measure (\<lambda>(tok, tokens, var_intent). length tokens)")
  show "wf (measure (\<lambda>(tok, tokens, var_intent). length tokens))" by simp
next
  fix tok :: token and tokens tokens1 tokens2 tokens3 :: "token list" and attr tok' :: token
    and var_intent vi :: "string option" and x
  assume "tokens = attr # tokens1"
    and r: "(if tok_text attr = ''intent'' then
               map_sum id (\<lambda>(i, tokens). (Some i, tokens)) (intent_attribute tokens1)
             else if tok_text attr = ''dimension'' then
               map_sum id (\<lambda>tokens. (var_intent, tokens)) (dimension_attribute tokens1)
             else Inr (var_intent, tokens1)) = Inr x"
    and "(vi, tokens2) = x" and "tokens2 = tok' # tokens3"
  moreover from r \<open>(vi, tokens2) = x\<close> have "length tokens2 \<le> length tokens1"
    by (auto split: if_splits simp: map_sum_def split: sum.splits
        dest: intent_attribute_length dimension_attribute_length)
  ultimately show "((tok', tokens3, vi), (tok, tokens, var_intent))
      \<in> measure (\<lambda>(tok, tokens, var_intent). length tokens)" by simp
qed

text \<open>
  The variable made after a comma of the entity list, and the first variable of the
  statement, which also gets the first doc attempt.
\<close>

definition declared :: "document \<Rightarrow> token \<Rightarrow> token \<Rightarrow> string option \<Rightarrow> variable" where
  "declared doc tok vtype var_intent =
     \<lparr>var_name = tok, declared_type = vtype, intent = var_intent,
      docstring = (if is_docstring doc (tok_tail tok)
                   then Some (docstrip doc (tok_tail tok)) else None)\<rparr>"

definition first_declared ::
  "document \<Rightarrow> token \<Rightarrow> token \<Rightarrow> string option \<Rightarrow> unit_state \<Rightarrow> variable" where
  "first_declared doc tok vtype var_intent st =
     \<lparr>var_name = tok, declared_type = vtype, intent = var_intent,
      docstring = (if own_docstring doc tok then Some (docstrip doc (tok_tail tok))
                   else group_docstring st)\<rparr>"

lemma skip_to_close_length:
  "skip_to_close tokens = Inr (close, rest) \<Longrightarrow> length rest < length tokens"
  using length_dropWhile_le [of "\<lambda>t. tok_text t \<noteq> '')''" tokens]
  by (auto simp: skip_to_close_def split: list.splits)

text \<open>
  The loop \<open>for tok in tokens\<close> over the entity list. A comma at the very end of the line
  is reported through \<open>self.report.error_endcomma()\<close>, and the loop goes on with the
  comma as the name of one more variable.
\<close>

function entities ::
  "document \<Rightarrow> token \<Rightarrow> string option \<Rightarrow> token list \<Rightarrow> unit_state \<Rightarrow> error + unit_state" where
  "entities doc vtype var_intent [] st = Inr st"
| "entities doc vtype var_intent (tok # tokens) st =
     (case (if tok_text tok = ''('' then skip_to_close tokens else Inr (tok, tokens)) of
        Inl e \<Rightarrow> Inl e
      | Inr (tok, tokens) \<Rightarrow>
          let st = doc_attempt doc tok st in
          if tok_text tok = '','' then
            (let st = doc_attempt doc tok st in
             case tokens of
               [] \<Rightarrow>
                 entities doc vtype var_intent []
                   (st\<lparr>report := report st @ [''endcomma''],
                       variables := variables st @ [declared doc tok vtype var_intent]\<rparr>)
             | tok # tokens \<Rightarrow>
                 entities doc vtype var_intent tokens
                   (st\<lparr>variables := variables st @ [declared doc tok vtype var_intent]\<rparr>))
          else entities doc vtype var_intent tokens st)"
  by pat_completeness auto
termination
  by (relation "measure (\<lambda>(doc, vtype, var_intent, tokens, st). length tokens)")
    (auto split: if_splits dest: skip_to_close_length)

text \<open>
  What \<open>parse_declaration_construct\<close> does with a line: an interface or a derived type is
  handed to a block parser that reads further lines (\<open>Interface.parse\<close>, \<open>Unit.parse\<close>,
  which need the lexer), everything else is parsed here.
\<close>

datatype decl_result = Interface_block | Derived_type_block | Parsed unit_state

definition access_specs :: "string list" where
  "access_specs = [''public'', ''private'']"

text \<open>\<open>self.statements.append(Statement(line, tag=...))\<close>.\<close>

definition add_statement :: "string \<Rightarrow> token list \<Rightarrow> unit_state \<Rightarrow> unit_state" where
  "add_statement tag line st = st\<lparr>statements := statements st @ [(tag, line)]\<rparr>"

text \<open>
  The variable declaration statement, lines 305 to 410 of flint/units/unit.py.
\<close>

definition variable_declaration ::
  "document \<Rightarrow> token list \<Rightarrow> token \<Rightarrow> token list \<Rightarrow> unit_state \<Rightarrow> error + unit_state" where
  "variable_declaration doc line vtype tokens st =
     bind_error (after_type vtype tokens) (\<lambda>(tok, tokens).
     bind_error (attributes tok tokens None) (\<lambda>(tok, tokens, var_intent).
     bind_error (if tok_text tok = ''::'' then next_token tokens else Inr (tok, tokens))
       (\<lambda>(tok, tokens).
     bind_error
       (entities doc vtype var_intent tokens
          (st\<lparr>variables := variables st @ [first_declared doc tok vtype var_intent st]\<rparr>))
       (\<lambda>st.
          let st = (if is_docstring doc (tok_tail (last line))
                       \<and> has_marker group_close (tok_tail (last line))
                    then st\<lparr>grp_docstr := None\<rparr> else st)
          in Inr (add_statement ''D'' line st)))))"

text \<open>
  \<open>Unit.parse_declaration_construct\<close>. Lines are lists, so the comparison of \<open>line[:2]\<close>
  with the tuple \<open>('abstract', 'interface')\<close> is always false and only \<open>interface\<close> as
  the first token opens an interface. \<open>line[1]\<close> raises on the single token \<open>type\<close>.
\<close>

definition parse_declaration_construct ::
  "document \<Rightarrow> string list \<Rightarrow> token list \<Rightarrow> unit_state \<Rightarrow> error + decl_result" where
  "parse_declaration_construct doc itypes line st =
     (case line of
        [] \<Rightarrow> Inl IndexError
      | tok # tokens \<Rightarrow>
          if tok_text tok = ''interface'' then Inr Interface_block
          else if tok_text tok = ''enum'' then Inr Derived_type_block
          else if tok_text tok = ''type'' \<and> tokens = [] then Inl IndexError
          else if tok_text tok = ''type'' \<and> tok_text (hd tokens) \<noteq> ''('' then Inr Derived_type_block
          else if tok_text tok \<in> set access_specs then Inr (Parsed (add_statement ''d'' line st))
          else if tok_text tok = ''data'' then Inr (Parsed (add_statement ''d'' line st))
          else if tok_text tok = ''parameter'' then Inr (Parsed (add_statement ''p'' line st))
          else
            (let st = (if is_docstring doc (tok_head tok) \<and> has_marker group_open (tok_head tok)
                       then st\<lparr>grp_docstr := Some (drop 2 (docstrip doc (tok_head tok)))\<rparr>
                       else st)
             in if tok_text tok \<in> set itypes then
                  map_sum id Parsed (variable_declaration doc line tok tokens st)
                else if tok_text tok \<in> {''type'', ''class''} then
                  map_sum id Parsed
                    (bind_error (base_type tokens) (\<lambda>(vtype, tokens).
                       variable_declaration doc line vtype tokens st))
                else if tok_text tok = ''namelist'' then
                  map_sum id Parsed (parse_namelist line st)
                else Inr (Parsed (add_statement ''X'' line st))))"

text \<open>
  Example values: a token without comments, a unit before any declaration, and an
  instance of the document functions in which a docstring is a non-empty list of
  fragments that start with \<open>!>\<close>.
\<close>

definition plain :: "string \<Rightarrow> token" where
  "plain s = \<lparr>tok_text = s, tok_head = [], tok_tail = []\<rparr>"

definition empty_unit :: unit_state where
  "empty_unit = \<lparr>variables = [], namelists = [], grp_docstr = None, statements = [], report = []\<rparr>"

definition marked_docs :: document where
  "marked_docs =
     \<lparr>is_docstring = (\<lambda>frags. frags \<noteq> [] \<and> list_all (\<lambda>frag. startswith frag ''!>'') frags),
      docstrip = (\<lambda>frags. concat (map (drop 2) frags))\<rparr>"


















text \<open>The name, the declared type and the intent of a variable.\<close>

definition summary :: "variable \<Rightarrow> string \<times> string \<times> string option" where
  "summary v = (tok_text (var_name v), tok_text (declared_type v), intent v)"

text \<open>What a parsed line reported.\<close>

definition reported :: "decl_result \<Rightarrow> string list" where
  "reported r = (case r of Parsed st \<Rightarrow> report st | _ \<Rightarrow> [])"


section \<open>Properties of the classifier\<close>

subsection \<open>Auxiliary facts\<close>

lemma first_unit_index_append:
  "set pre \<inter> set uts = {} \<Longrightarrow> kw \<in> set uts
   \<Longrightarrow> first_unit_index uts (pre @ kw # rest) = Some (length pre)"
  by (induction pre) auto

lemma first_unit_index_extra:
  "x \<notin> set (takeWhile (\<lambda>w. w \<notin> set uts) line)
   \<Longrightarrow> first_unit_index (uts @ [x]) line = first_unit_index uts line"
  by (induction line) auto

lemma scan_prefix_set_cong:
  "set it = set it' \<Longrightarrow> set up = set up' \<Longrightarrow> scan_prefix it up ws = scan_prefix it' up' ws"
  by (induction it up ws rule: scan_prefix.induct) (auto split: list.splits)

lemma scan_prefix_accepted:
  "scan_prefix itypes (unit_prefix itypes) ws \<Longrightarrow> accepted_prefix itypes ws"
proof (induction itypes "unit_prefix itypes" ws rule: scan_prefix.induct)
  case (1 itypes)
  show ?case by (rule ap_end)
next
  case (2 itypes word words)
  show ?case
  proof (cases "word \<in> set itypes")
    case False
    with "2.prems" have kw: "word \<in> set prefix_keywords"
      and rest: "scan_prefix itypes (unit_prefix itypes) words"
      by (auto simp: unit_prefix_def split: if_splits)
    from False kw rest "2.hyps"(3) show ?thesis
      by (auto intro!: ap_keyword simp: unit_prefix_def)
  next
    case ty: True
    show ?thesis
    proof (cases words)
      case Nil
      with ty show ?thesis by (simp add: ap_type_last)
    next
      case (Cons word' words')
      show ?thesis
      proof (cases "word' = ''(''")
        case False
        with ty Cons "2.prems" have "scan_prefix itypes (unit_prefix itypes) words'" by simp
        with "2.hyps"(2) [OF ty Cons False] have "accepted_prefix itypes words'" by simp
        with ty False Cons show ?thesis by (simp add: ap_type_skip)
      next
        case paren: True
        let ?P = "\<lambda>w. w \<noteq> '')''"
        from ty Cons paren "2.prems"
        have "scan_prefix itypes (unit_prefix itypes) (drop 1 (dropWhile ?P words'))" by simp
        with "2.hyps"(1) [OF ty Cons paren]
        have acc: "accepted_prefix itypes (drop 1 (dropWhile ?P words'))" by simp
        show ?thesis
        proof (cases "dropWhile ?P words'")
          case Nil
          then have "'')'' \<notin> set words'" by (auto simp: dropWhile_eq_Nil_conv)
          with ty Cons paren show ?thesis by (simp add: ap_type_open)
        next
          case (Cons c r)
          then have c: "c = '')''" using hd_dropWhile [of ?P words'] by auto
          have parts: "words' = takeWhile ?P words' @ '')'' # r"
            using takeWhile_dropWhile_id [of ?P words'] Cons c by simp
          have closed: "'')'' \<notin> set (takeWhile ?P words')"
            by (auto dest: set_takeWhileD)
          from acc Cons have "accepted_prefix itypes r" by simp
          from ap_type_selector [OF ty closed this] parts \<open>words = word' # words'\<close> paren
          show ?thesis by simp
        qed
      qed
    qed
  qed
qed

lemma accepted_scan_prefix:
  "accepted_prefix itypes ws \<Longrightarrow> scan_prefix itypes (unit_prefix itypes) ws"
proof (induction rule: accepted_prefix.induct)
  case (ap_type_selector w sel ws)
  then have "dropWhile (\<lambda>w. w \<noteq> '')'') (sel @ '')'' # ws) = '')'' # ws"
    by (subst dropWhile_append2) auto
  with ap_type_selector show ?case by simp
next
  case (ap_type_open w sel)
  then have eq: "dropWhile (\<lambda>w. w \<noteq> '')'') sel = []"
    by (auto simp: dropWhile_eq_Nil_conv)
  show ?case by (simp add: ap_type_open.hyps eq)
qed (auto simp: unit_prefix_def)

subsection \<open>C3: which lines close a unit\<close>

text \<open>
  Claim C3 says that \<open>end_statement\<close> with \<open>utype = k\<close> returns true exactly on
  \<open>end\<close>, \<open>end k\<close> and the fused \<open>endk\<close>, each with an optional trailing name. The code
  accepts the bare \<open>end\<close> and the fused \<open>endk\<close> only as the single token of the line
  (\<open>len(line) == 1\<close>), and accepts \<open>end k\<close> followed by any tokens at all. So, for every
  non-empty kind \<open>k\<close>: \<open>end_statement\<close> returns \<open>True\<close> exactly when the line is the
  single token \<open>end\<close>, the single token \<open>endk\<close>, or begins with the two tokens \<open>end\<close>,
  \<open>k\<close>; what follows them is not compared with the unit's name. In particular
  \<open>end subroutine\<close> does not close a module.
\<close>

theorem end_statement_accepts:
  assumes "k \<noteq> []"
  shows "((end_statement (Some k) line = Inr (Some True))
           = (line = [''end''] \<or> line = [''end'' @ k] \<or> (\<exists>rest. line = ''end'' # k # rest)))
         \<and> end_statement (Some ''module'') [''end'', ''subroutine''] = Inr (Some False)"
proof
  show "end_statement (Some ''module'') [''end'', ''subroutine''] = Inr (Some False)"
    by (simp add: end_statement_def startswith_def)
  show "(end_statement (Some k) line = Inr (Some True))
           = (line = [''end''] \<or> line = [''end'' @ k] \<or> (\<exists>rest. line = ''end'' # k # rest))"
  proof (cases line)
    case Nil
    with assms show ?thesis by (simp add: end_statement_def)
  next
    case (Cons w ws)
    show ?thesis
    proof (cases ws)
      case Nil
      with Cons assms show ?thesis
        by (auto simp: end_statement_def startswith_def)
    next
      case (Cons w' ws')
      with \<open>line = w # ws\<close> assms show ?thesis
        by (auto simp: end_statement_def startswith_def)
    qed
  qed
qed

text \<open>
  The theorem at the kind \<open>module\<close> and the line \<open>end module m\<close>: the line closes the
  unit, whatever the trailing name.
\<close>

theorem end_statement_accepts_witness:
  "''module'' \<noteq> []
   \<and> end_statement (Some ''module'') [''end'', ''module'', ''m''] = Inr (Some True)"
proof -
  have k: "''module'' \<noteq> []" by simp
  from end_statement_accepts [OF k, of "[''end'', ''module'', ''m'']"]
  show ?thesis by simp
qed

text \<open>
  The claim as stated fails: \<open>endmodule m\<close> is the fused form with a trailing name, and
  the code answers \<open>False\<close>.
\<close>

theorem end_statement_counterexample:
  "closes_unit_spec ''module'' [''endmodule'', ''m'']
   \<and> end_statement (Some ''module'') [''endmodule'', ''m''] = Inr (Some False)"
  by (simp add: closes_unit_spec_def end_statement_def startswith_def)

subsection \<open>C4: unit keyword after the first token\<close>

text \<open>
  Claim C4 says that a line whose first unit keyword stands after the first token opens
  a unit if and only if the tokens before the keyword are legal prefixes, a type keyword
  being allowed a balanced parenthesized selector. The scan of the code is looser and
  stricter at once: the token after a type keyword is passed over unread unless it is an
  opening parenthesis, a selector ends at the first closing parenthesis, and a selector
  that is never closed is accepted. So: for every line \<open>pre @ kw # rest\<close> whose first
  unit keyword \<open>kw\<close> comes after a non-empty \<open>pre\<close>, \<open>Unit.statement\<close> returns \<open>True\<close> if
  and only if \<open>pre\<close> is generated by the grammar \<open>accepted_prefix\<close>.
\<close>

theorem statement_prefix_grammar:
  assumes "pre \<noteq> []" and "set pre \<inter> set unit_types = {}" and "kw \<in> set unit_types"
  shows "statement itypes (pre @ kw # rest) = accepted_prefix itypes pre"
proof -
  from assms(1) obtain n where n: "length pre = Suc n" by (cases pre) auto
  have "first_unit_index unit_types (pre @ kw # rest) = Some (length pre)"
    using assms(2,3) by (rule first_unit_index_append)
  then have "statement itypes (pre @ kw # rest) = scan_prefix itypes (unit_prefix itypes) pre"
    by (simp add: statement_def n [symmetric] del: first_unit_index.simps) (simp add: n)
  also have "\<dots> = accepted_prefix itypes pre"
    using scan_prefix_accepted accepted_scan_prefix by blast
  finally show ?thesis .
qed

text \<open>The theorem at the function header \<open>pure real(kind=8) function f(x)\<close>.\<close>

theorem statement_prefix_grammar_witness:
  "[''pure'', ''real'', ''('', ''kind'', ''='', ''8'', '')''] \<noteq> []
   \<and> set [''pure'', ''real'', ''('', ''kind'', ''='', ''8'', '')''] \<inter> set unit_types = {}
   \<and> ''function'' \<in> set unit_types
   \<and> statement intrinsic_types
        [''pure'', ''real'', ''('', ''kind'', ''='', ''8'', '')'', ''function'', ''f'', ''('', ''x'', '')'']
   \<and> accepted_prefix intrinsic_types [''pure'', ''real'', ''('', ''kind'', ''='', ''8'', '')'']"
proof -
  let ?pre = "[''pure'', ''real'', ''('', ''kind'', ''='', ''8'', '')'']"
  have a: "?pre \<noteq> []" by simp
  have b: "set ?pre \<inter> set unit_types = {}" by (simp add: unit_types_def)
  have c: "''function'' \<in> set unit_types" by (simp add: unit_types_def)
  have d: "statement intrinsic_types (?pre @ ''function'' # [''f'', ''('', ''x'', '')''])"
    by (simp add: statement_def unit_types_def intrinsic_types_def unit_prefix_def
        prefix_keywords_def)
  from statement_prefix_grammar [OF a b c, of intrinsic_types "[''f'', ''('', ''x'', '')'']"] d
  have "accepted_prefix intrinsic_types ?pre" by simp
  with a b c d show ?thesis by simp
qed

text \<open>
  The claim as stated fails in both directions. \<open>integer foo function f\<close> is classified
  as opening a unit although \<open>foo\<close> is no legal prefix, and
  \<open>real(kind(1.0)) function f\<close> is not, although its selector is balanced.
\<close>

theorem statement_prefix_counterexample:
  "statement intrinsic_types [''integer'', ''foo'', ''function'', ''f'']
   \<and> \<not> legal_prefix_spec intrinsic_types [''integer'', ''foo'']
   \<and> \<not> statement intrinsic_types
        [''real'', ''('', ''kind'', ''('', ''1.0'', '')'', '')'', ''function'', ''f'']
   \<and> legal_prefix_spec intrinsic_types [''real'', ''('', ''kind'', ''('', ''1.0'', '')'', '')'']"
  by (simp add: statement_def unit_types_def intrinsic_types_def unit_prefix_def
      prefix_keywords_def)

subsection \<open>C9: the two versions of \<open>Unit.statement\<close>\<close>

text \<open>
  Claim C9 says that \<open>Unit.statement\<close> of flint/unit.py and of flint/units/unit.py
  return equal results on every line. They differ in their keyword table: only the
  second one knows \<open>type\<close>. So: when \<open>Variable.intrinsic_types\<close> holds the same keywords
  as \<open>Unit.intrinsic_types\<close> of flint/unit.py, the two return equal results on every
  line in which \<open>type\<close> does not occur before the first of the six keywords they share
  (nor anywhere, when there is none).
\<close>

theorem statement_versions_agree:
  assumes "set itypes = set intrinsic_types"
    and "''type'' \<notin> set (takeWhile (\<lambda>w. w \<notin> set unit_types_unit_py) line)"
  shows "statement itypes line = statement_unit_py line"
proof -
  have uts: "unit_types = unit_types_unit_py @ [''type'']"
    by (simp add: unit_types_def unit_types_unit_py_def)
  have idx: "first_unit_index unit_types line = first_unit_index unit_types_unit_py line"
    unfolding uts using assms(2) by (rule first_unit_index_extra)
  have "set (unit_prefix itypes) = set (unit_prefix intrinsic_types)"
    using assms(1) by (simp add: unit_prefix_def)
  with assms(1) have "scan_prefix itypes (unit_prefix itypes) ws
      = scan_prefix intrinsic_types (unit_prefix intrinsic_types) ws" for ws
    by (rule scan_prefix_set_cong)
  with idx show ?thesis
    by (simp add: statement_def statement_unit_py_def split: option.splits nat.splits)
qed

text \<open>
  The theorem at \<open>real function f(type)\<close>, where \<open>type\<close> comes after the keyword
  \<open>function\<close>: both versions answer \<open>True\<close>.
\<close>

theorem statement_versions_agree_witness:
  "set intrinsic_types = set intrinsic_types
   \<and> ''type'' \<notin> set (takeWhile (\<lambda>w. w \<notin> set unit_types_unit_py)
        [''real'', ''function'', ''f'', ''('', ''type'', '')''])
   \<and> statement intrinsic_types [''real'', ''function'', ''f'', ''('', ''type'', '')'']
   \<and> statement_unit_py [''real'', ''function'', ''f'', ''('', ''type'', '')'']"
proof -
  let ?l = "[''real'', ''function'', ''f'', ''('', ''type'', '')'']"
  have h: "''type'' \<notin> set (takeWhile (\<lambda>w. w \<notin> set unit_types_unit_py) ?l)"
    by (simp add: unit_types_unit_py_def)
  have v: "statement_unit_py ?l"
    by (simp add: statement_unit_py_def unit_types_unit_py_def intrinsic_types_def
        unit_prefix_def)
  from statement_versions_agree [OF refl h] v have "statement intrinsic_types ?l" by simp
  with h v show ?thesis by simp
qed

text \<open>
  The claim as stated fails on the derived-type header \<open>type t\<close>: the version of
  flint/units/unit.py answers \<open>True\<close>, the one of flint/unit.py \<open>False\<close>.
\<close>

theorem statement_versions_counterexample:
  "statement intrinsic_types [''type'', ''t''] \<noteq> statement_unit_py [''type'', ''t'']"
  by (simp add: statement_def statement_unit_py_def unit_types_def unit_types_unit_py_def)

subsection \<open>C10: unit keyword as the first token\<close>

text \<open>
  Claim C10: a statement whose first token is any keyword of \<open>Unit.unit_types\<close>,
  \<open>type\<close> included, makes \<open>Unit.statement\<close> of flint/units/unit.py return \<open>True\<close>
  whatever the remaining tokens are; in particular the type declaration statement
  \<open>type ( name ) :: var\<close> is classified as opening a program unit.
\<close>

theorem statement_first_keyword:
  "(w \<in> set unit_types \<longrightarrow> statement itypes (w # rest))
   \<and> statement itypes [''type'', ''('', ''name'', '')'', ''::'', ''var'']"
  by (simp add: statement_def unit_types_def)

text \<open>The theorem at \<open>type t end\<close> and at \<open>subroutine s\<close>.\<close>

theorem statement_first_keyword_witness:
  "''type'' \<in> set unit_types \<and> statement intrinsic_types [''type'', ''t'', ''end'']
   \<and> ''subroutine'' \<in> set unit_types \<and> statement intrinsic_types [''subroutine'', ''s'']"
  using statement_first_keyword [of "''type''" intrinsic_types "[''t'', ''end'']"]
    statement_first_keyword [of "''subroutine''" intrinsic_types "[''s'']"]
  by (simp add: unit_types_def)

section \<open>Properties of the link list\<close>

subsection \<open>Auxiliary facts\<close>

declare generate_link_list.simps [simp del]

lemma gll_truncated: "99 < level \<Longrightarrow> generate_link_list objs nfl ol level = ol"
  by (simp add: generate_link_list.simps)

lemma gll_Nil: "generate_link_list [] nfl ol level = ol"
  by (simp add: generate_link_list.simps)

lemma gll_fold:
  "fold (\<lambda>n acc. generate_link_list [n] nfl acc level) ns acc = generate_link_list ns nfl acc level"
proof (cases "level \<le> 99")
  case True
  then show ?thesis
    by (subst (2) generate_link_list.simps, simp)
       (rule fold_cong, auto simp: generate_link_list.simps)
next
  case False
  then have "fold (\<lambda>n acc. generate_link_list [n] nfl acc level) ns acc = acc"
    by (induction ns) (auto simp: gll_truncated)
  with False show ?thesis by (simp add: gll_truncated)
qed

lemma gll_single:
  "generate_link_list [ob] nfl ol level =
     (if level \<le> 99 \<and> ob \<notin> set ol
      then generate_link_list (needs nfl ob) nfl (ol @ [ob]) (level + 1) else ol)"
  by (subst generate_link_list.simps)
    (auto simp: gll_fold needs_def gll_Nil split: option.splits)

lemma gll_append:
  "generate_link_list (xs @ ys) nfl ol level
     = generate_link_list ys nfl (generate_link_list xs nfl ol level) level"
  by (cases "level \<le> 99") (simp_all add: generate_link_list.simps [of _ nfl _ level])

lemma gll_Cons:
  "generate_link_list (ob # obs) nfl ol level
     = generate_link_list obs nfl (generate_link_list [ob] nfl ol level) level"
  using gll_append [of "[ob]" obs] by simp

lemma gll_induct [case_names truncated Nil single Cons]:
  assumes truncated: "\<And>objs ol level. 99 < level \<Longrightarrow> P objs ol level"
    and Nil: "\<And>ol level. P [] ol level"
    and single: "\<And>ob ol level. level \<le> 99 \<Longrightarrow>
        (ob \<notin> set ol \<Longrightarrow> P (needs nfl ob) (ol @ [ob]) (level + 1)) \<Longrightarrow> P [ob] ol level"
    and Cons: "\<And>ob obs ol level. level \<le> 99 \<Longrightarrow> P [ob] ol level \<Longrightarrow>
        P obs (generate_link_list [ob] nfl ol level) level \<Longrightarrow> P (ob # obs) ol level"
  shows "P objs ol level"
proof (induction "100 - level" arbitrary: level objs ol)
  case 0
  then show ?case by (simp add: truncated)
next
  case (Suc k)
  then have lvl: "level \<le> 99" and k: "k = 100 - (level + 1)" by simp_all
  have one: "P [ob] ol' level" for ob ol'
    by (rule single [OF lvl]) (rule Suc.hyps(1) [OF k])
  show ?case
  proof (induction objs arbitrary: ol)
    case Nil
    show ?case by (rule assms(2))
  next
    case (Cons ob obs)
    show ?case by (rule assms(4) [OF lvl one Cons.IH])
  qed
qed

lemma gll_extends: "\<exists>ys. generate_link_list objs nfl ol level = ol @ ys"
proof (induction objs ol level rule: gll_induct [where nfl = nfl])
  case (single ob ol level)
  then show ?case by (auto simp: gll_single)
next
  case (Cons ob obs ol level)
  then show ?case by (subst gll_Cons) auto
qed (simp_all add: gll_truncated gll_Nil)

lemma gll_distinct: "distinct ol \<Longrightarrow> distinct (generate_link_list objs nfl ol level)"
proof (induction objs ol level rule: gll_induct [where nfl = nfl])
  case (single ob ol level)
  then show ?case by (auto simp: gll_single)
next
  case (Cons ob obs ol level)
  then show ?case by (subst gll_Cons) auto
qed (simp_all add: gll_truncated gll_Nil)

lemma gll_sound:
  "set (generate_link_list objs nfl ol level) \<subseteq> set ol \<union> (needs_rel nfl)\<^sup>* `` set objs"
proof (induction objs ol level rule: gll_induct [where nfl = nfl])
  case (single ob ol level)
  have "(needs_rel nfl)\<^sup>* `` set (needs nfl ob) \<subseteq> (needs_rel nfl)\<^sup>* `` {ob}"
    by (auto simp: needs_rel_def intro: converse_rtrancl_into_rtrancl)
  with single show ?case by (auto simp: gll_single)
next
  case (Cons ob obs ol level)
  then show ?case by (subst gll_Cons) auto
qed (simp_all add: gll_truncated gll_Nil)


lemma gll_mono: "set ol \<subseteq> set (generate_link_list objs nfl ol level)"
  using gll_extends [of objs nfl ol level] by auto

lemma gll_closed:
  assumes fin: "finite S" and closed: "\<forall>x\<in>S. set (needs nfl x) \<subseteq> S"
  shows "set objs \<subseteq> S \<Longrightarrow> level + card (S - set ol) \<le> 100 \<Longrightarrow>
    set objs \<subseteq> set (generate_link_list objs nfl ol level)
    \<and> (\<forall>x \<in> set (generate_link_list objs nfl ol level) - set ol.
          set (needs nfl x) \<subseteq> set (generate_link_list objs nfl ol level))"
proof (induction objs ol level rule: gll_induct [where nfl = nfl])
  case (truncated objs ol level)
  then have "card (S - set ol) = 0" by simp
  with fin have "S \<subseteq> set ol" by simp
  with truncated show ?case by (auto simp: gll_truncated)
next
  case (Nil ol level)
  show ?case by (simp add: gll_Nil)
next
  case (single ob ol level)
  show ?case
  proof (cases "ob \<in> set ol")
    case True
    then show ?thesis by (simp add: gll_single)
  next
    case False
    let ?res = "generate_link_list (needs nfl ob) nfl (ol @ [ob]) (level + 1)"
    from single.prems False have ob: "ob \<in> S - set ol" by simp
    with fin have "card (S - set ol) = Suc (card (S - set ol - {ob}))"
      by (metis card_Suc_Diff1 finite_Diff)
    moreover have "S - set (ol @ [ob]) = S - set ol - {ob}" by auto
    ultimately have bound: "level + 1 + card (S - set (ol @ [ob])) \<le> 100"
      using single.prems(2) by simp
    from ob closed have "set (needs nfl ob) \<subseteq> S" by auto
    from single.IH [OF False this bound]
    have ih: "set (needs nfl ob) \<subseteq> set ?res"
      "\<forall>x \<in> set ?res - set (ol @ [ob]). set (needs nfl x) \<subseteq> set ?res" by simp_all
    have "ob \<in> set ?res" using gll_mono [of "ol @ [ob]"] by auto
    with ih single.hyps False show ?thesis
      by (auto simp: gll_single)
  qed
next
  case (Cons ob obs ol level)
  let ?r1 = "generate_link_list [ob] nfl ol level"
  let ?r2 = "generate_link_list obs nfl ?r1 level"
  from Cons.prems have s1: "set [ob] \<subseteq> S" and s2: "set obs \<subseteq> S" by simp_all
  have m1: "set ol \<subseteq> set ?r1" by (rule gll_mono)
  have m2: "set ?r1 \<subseteq> set ?r2" by (rule gll_mono)
  from m1 have "S - set ?r1 \<subseteq> S - set ol" by auto
  with fin have "card (S - set ?r1) \<le> card (S - set ol)" by (simp add: card_mono)
  with Cons.prems(2) have b2: "level + card (S - set ?r1) \<le> 100" by simp
  from Cons.IH(1) [OF s1 Cons.prems(2)]
  have i1: "ob \<in> set ?r1" "\<forall>x \<in> set ?r1 - set ol. set (needs nfl x) \<subseteq> set ?r1" by simp_all
  from Cons.IH(2) [OF s2 b2]
  have i2: "set obs \<subseteq> set ?r2" "\<forall>x \<in> set ?r2 - set ?r1. set (needs nfl x) \<subseteq> set ?r2" by simp_all
  have "set (ob # obs) \<subseteq> set ?r2" using i1(1) i2(1) m2 by auto
  moreover have "set (needs nfl x) \<subseteq> set ?r2" if "x \<in> set ?r2 - set ol" for x
  proof (cases "x \<in> set ?r1")
    case True
    with that i1(2) m2 show ?thesis by blast
  next
    case False
    with that i2(2) show ?thesis by blast
  qed
  ultimately show ?case by (simp add: gll_Cons [of ob obs])
qed

lemma Image_rtrancl_closed:
  assumes "a \<in> X" and "\<forall>x\<in>X. \<forall>y. (x, y) \<in> r \<longrightarrow> y \<in> X"
  shows "r\<^sup>* `` {a} \<subseteq> X"
proof
  fix y assume "y \<in> r\<^sup>* `` {a}"
  then have "(a, y) \<in> r\<^sup>*" by simp
  then show "y \<in> X" using assms by (induction rule: rtrancl_induct) auto
qed

lemma gll_reachable:
  assumes "start \<in> S" "finite S" "card S \<le> 100" "\<forall>x\<in>S. set (needs nfl x) \<subseteq> S"
  shows "set (generate_link_list [start] nfl [] 0) = (needs_rel nfl)\<^sup>* `` {start}"
proof
  show "set (generate_link_list [start] nfl [] 0) \<subseteq> (needs_rel nfl)\<^sup>* `` {start}"
    using gll_sound [of "[start]" nfl "[]" 0] by simp
  let ?res = "generate_link_list [start] nfl [] 0"
  from gll_closed [OF assms(2,4), of "[start]" 0 "[]"] assms(1,3)
  have "start \<in> set ?res" and "\<forall>x \<in> set ?res. set (needs nfl x) \<subseteq> set ?res" by simp_all
  then show "(needs_rel nfl)\<^sup>* `` {start} \<subseteq> set ?res"
    by (intro Image_rtrancl_closed) (auto simp: needs_rel_def)
qed


lemma gll_listed:
  "set xs \<subseteq> set ol \<Longrightarrow> generate_link_list xs nfl ol level = ol"
proof (induction xs)
  case Nil
  show ?case by (simp add: gll_Nil)
next
  case (Cons x xs)
  then show ?case by (simp add: gll_Cons [of x xs] gll_single)
qed

lemma follows_first_need_prefix:
  assumes "follows_first_need nfl r1 i" and "i < length r1"
  shows "follows_first_need nfl (r1 @ zs) i"
  using assms by (auto simp: follows_first_need_def nth_append split: option.splits)

lemma gll_first_need:
  assumes fin: "finite S" and closed: "\<forall>x\<in>S. set (needs nfl x) \<subseteq> S"
  shows "set objs \<subseteq> S \<Longrightarrow> level + card (S - set ol) \<le> 100 \<Longrightarrow>
    length ol \<le> i \<Longrightarrow> i < length (generate_link_list objs nfl ol level) \<Longrightarrow>
    follows_first_need nfl (generate_link_list objs nfl ol level) i"
proof (induction objs ol level arbitrary: i rule: gll_induct [where nfl = nfl])
  case (truncated objs ol level)
  then show ?case by (simp add: gll_truncated)
next
  case (Nil ol level)
  then show ?case by (simp add: gll_Nil)
next
  case (single ob ol level)
  show ?case
  proof (cases "ob \<in> set ol")
    case True
    with single.prems show ?thesis by (simp add: gll_single)
  next
    case False
    let ?L = "level + 1"
    let ?ol = "ol @ [ob]"
    let ?res = "generate_link_list (needs nfl ob) nfl ?ol ?L"
    have res: "generate_link_list [ob] nfl ol level = ?res"
      using False single.hyps by (simp add: gll_single)
    from single.prems False have ob: "ob \<in> S - set ol" by simp
    with fin have card: "card (S - set ol) = Suc (card (S - set ol - {ob}))"
      by (metis card_Suc_Diff1 finite_Diff)
    have diff: "S - set ?ol = S - set ol - {ob}" by auto
    from card diff have bound: "?L + card (S - set ?ol) \<le> 100"
      using single.prems(2) by simp
    from ob closed have sub: "set (needs nfl ob) \<subseteq> S" by auto
    obtain ys where ys: "?res = ?ol @ ys" using gll_extends by blast
    show ?thesis
    proof (cases "i = length ol")
      case False
      with single.prems(3) have "length ?ol \<le> i" by simp
      from single.IH [OF \<open>ob \<notin> set ol\<close> sub bound this] single.prems(4) res
      show ?thesis by simp
    next
      case True
      have at: "?res ! i = ob" and tk: "take (Suc i) ?res = ?ol"
        using True ys by (simp_all add: nth_append)
      have "Suc i < length ?res \<and> ?res ! Suc i = n"
        if "find (\<lambda>n. n \<notin> set ?ol) (needs nfl ob) = Some n" for n
      proof -
        from that obtain j where j: "j < length (needs nfl ob)" "n = needs nfl ob ! j"
          "n \<notin> set ?ol" "\<forall>k<j. needs nfl ob ! k \<in> set ?ol"
          by (auto simp: find_Some_iff)
        let ?pre = "take j (needs nfl ob)" and ?post = "drop (Suc j) (needs nfl ob)"
        have parts: "needs nfl ob = (?pre @ [n]) @ ?post"
          using j(1,2) id_take_nth_drop [of j "needs nfl ob"] by simp
        have pre: "set ?pre \<subseteq> set ?ol"
        proof
          fix x assume "x \<in> set ?pre"
          then obtain k where "k < length ?pre" "x = ?pre ! k"
            by (metis in_set_conv_nth)
          with j(4) show "x \<in> set ?ol" by simp
        qed
        from j(1,2) sub have "n \<in> S" by auto
        with j(3) have "n \<in> S - set ?ol" by simp
        with fin have "0 < card (S - set ?ol)" by (metis card_gt_0_iff finite_Diff empty_iff)
        with bound have L: "?L \<le> 99" by simp
        obtain zs where zs: "generate_link_list (needs nfl n) nfl (?ol @ [n]) (?L + 1)
            = (?ol @ [n]) @ zs" using gll_extends by blast
        have step: "generate_link_list (?pre @ [n]) nfl ?ol ?L = (?ol @ [n]) @ zs"
          using pre j(3) L zs by (simp add: gll_append gll_listed gll_single)
        obtain ws where "generate_link_list ?post nfl ((?ol @ [n]) @ zs) ?L
            = ((?ol @ [n]) @ zs) @ ws" using gll_extends by blast
        moreover have "?res = generate_link_list ((?pre @ [n]) @ ?post) nfl ?ol ?L"
          by (rule arg_cong [OF parts])
        ultimately have "?res = ol @ ob # n # zs @ ws"
          using step by (simp only: gll_append [of "?pre @ [n]" ?post]) simp
        with True show ?thesis by (simp add: nth_append)
      qed
      with at tk res show ?thesis
        by (simp add: follows_first_need_def split: option.splits)
    qed
  qed
next
  case (Cons ob obs ol level)
  let ?r1 = "generate_link_list [ob] nfl ol level"
  let ?r2 = "generate_link_list obs nfl ?r1 level"
  have r: "generate_link_list (ob # obs) nfl ol level = ?r2" by (rule gll_Cons)
  from Cons.prems have s1: "set [ob] \<subseteq> S" and s2: "set obs \<subseteq> S" by simp_all
  have m1: "set ol \<subseteq> set ?r1" by (rule gll_mono)
  then have "S - set ?r1 \<subseteq> S - set ol" by auto
  with fin have "card (S - set ?r1) \<le> card (S - set ol)" by (simp add: card_mono)
  with Cons.prems(2) have b2: "level + card (S - set ?r1) \<le> 100" by simp
  obtain zs where zs: "?r2 = ?r1 @ zs" using gll_extends by blast
  show ?case
  proof (cases "i < length ?r1")
    case True
    from Cons.IH(1) [OF s1 Cons.prems(2,3) True]
    have "follows_first_need nfl (?r1 @ zs) i" using True by (rule follows_first_need_prefix)
    with zs r show ?thesis by simp
  next
    case False
    then have "length ?r1 \<le> i" by simp
    from Cons.IH(2) [OF s2 b2 this] Cons.prems(4) r show ?thesis by simp
  qed
qed

lemma gll_Cons2:
  "generate_link_list (ob # ob' # obs) nfl ol level
     = generate_link_list (ob' # obs) nfl (generate_link_list [ob] nfl ol level) level"
  by (rule gll_Cons)

subsection \<open>C5: termination and the depth bound\<close>

text \<open>
  Claim C5 says that the link-list computation terminates within the depth bound 100,
  which truncates the traversal, and that it reports a \<open>LinkCycleSuspected\<close> warning
  rather than looping. The function is total (its recursion descends on
  \<open>100 - level\<close>), and the bound truncates: a call at level 100 or more returns the list
  it was given. But nothing is reported: the function has no effect besides the list it
  returns, which extends the list it was given. So: for every dictionary, cyclic or
  not, the computation terminates; a call at a level above 99 returns \<open>obj_list\<close>
  unchanged; every call returns \<open>obj_list\<close> followed by the objects it added, and nothing
  else. On the cycle A needs B, B needs A it returns \<open>[A, B]\<close>.
\<close>

theorem link_list_truncation:
  "(99 < level \<longrightarrow> generate_link_list objs nfl ol level = ol)
   \<and> (\<exists>ys. generate_link_list objs nfl ol level = ol @ ys)
   \<and> generate_link_list [''a.o''] cyclic_needs [] 0 = [''a.o'', ''b.o'']"
proof -
  have "generate_link_list [''a.o''] cyclic_needs [] 0 = [''a.o'', ''b.o'']"
    by (simp add: gll_single gll_Cons2 gll_Nil needs_def cyclic_needs_def)
  then show ?thesis using gll_extends by (simp add: gll_truncated)
qed

text \<open>
  The theorem at level 100, where \<open>b.o\<close> is not added although it is not listed; at
  level 99 it still is.
\<close>

theorem link_list_truncation_witness:
  "(99::nat) < 100
   \<and> generate_link_list [''b.o''] cyclic_needs [''a.o''] 100 = [''a.o'']
   \<and> generate_link_list [''b.o''] cyclic_needs [''a.o''] 99 = [''a.o'', ''b.o'']"
proof -
  have "generate_link_list [''b.o''] cyclic_needs [''a.o''] 99 = [''a.o'', ''b.o'']"
    by (simp add: gll_single gll_Cons2 gll_Nil gll_truncated needs_def cyclic_needs_def)
  with link_list_truncation [of 100 "[''b.o'']" cyclic_needs "[''a.o'']"]
  show ?thesis by simp
qed

text \<open>
  The claim as stated fails on the cycle of the specification. The three calls made
  there are the ones below: the recursion ends at level 2, where \<open>a.o\<close> is found in the
  list, the bound is never met, and the value returned is the plain list of the two
  objects, with no warning beside it.
\<close>

theorem link_list_cycle_counterexample:
  "generate_link_list [''a.o''] cyclic_needs [] 0 = [''a.o'', ''b.o'']
   \<and> generate_link_list [''b.o''] cyclic_needs [''a.o''] 1 = [''a.o'', ''b.o'']
   \<and> generate_link_list [''a.o''] cyclic_needs [''a.o'', ''b.o''] 2 = [''a.o'', ''b.o'']"
  by (simp add: gll_single gll_Cons2 gll_Nil needs_def cyclic_needs_def)

subsection \<open>C6: the link list of a program\<close>

text \<open>
  Claim C6 says that the link list of a program is the transitive closure over
  \<open>needed_for_link_by\<close> from the program's object, in breadth order, each object once.
  The traversal is depth first, and it is cut at level 100. So: the list computed by
  \<open>__generate_link_list([start], needed_for_link_by)\<close> names no object twice and begins
  with \<open>start\<close>; when \<open>start\<close> lies in a set of at most 100 objects that holds whatever
  its members need (so in every project of at most 100 source files), the list holds
  exactly the objects reachable from \<open>start\<close> over \<open>needed_for_link_by\<close>, \<open>start\<close>
  included, in depth-first order: an object that needs an object not yet listed is
  directly followed by the first such object.
\<close>

theorem link_list_depth_first:
  "distinct (generate_link_list [start] nfl [] 0)
   \<and> hd (generate_link_list [start] nfl [] 0) = start
   \<and> (start \<in> S \<and> finite S \<and> card S \<le> 100 \<and> closed_under_needs nfl S \<longrightarrow>
        set (generate_link_list [start] nfl [] 0) = (needs_rel nfl)\<^sup>* `` {start}
        \<and> (\<forall>i < length (generate_link_list [start] nfl [] 0).
              follows_first_need nfl (generate_link_list [start] nfl [] 0) i))"
proof (intro conjI impI)
  let ?res = "generate_link_list [start] nfl [] 0"
  show "distinct ?res" by (rule gll_distinct) simp
  show "hd ?res = start"
    using gll_extends [of "needs nfl start" nfl "[start]" 1] by (auto simp: gll_single)
  assume bounded: "start \<in> S \<and> finite S \<and> card S \<le> 100 \<and> closed_under_needs nfl S"
  then have closed: "\<forall>x\<in>S. set (needs nfl x) \<subseteq> S"
    by (simp add: closed_under_needs_def)
  from bounded closed show "set ?res = (needs_rel nfl)\<^sup>* `` {start}"
    by (intro gll_reachable [of start S]) simp_all
  show "\<forall>i < length ?res. follows_first_need nfl ?res i"
  proof (intro allI impI)
    fix i assume "i < length ?res"
    with bounded gll_first_need [of S nfl "[start]" 0 "[]" i] closed
    show "follows_first_need nfl ?res i" by simp
  qed
qed

text \<open>
  The theorem at the dictionary \<open>diamond_needs\<close> and the start \<open>a.o\<close>: the four objects
  are reachable, and \<open>b.o\<close> is directly followed by \<open>d.o\<close>, which it needs.
\<close>

theorem link_list_depth_first_witness:
  "closed_under_needs diamond_needs {''a.o'', ''b.o'', ''c.o'', ''d.o''}
   \<and> generate_link_list [''a.o''] diamond_needs [] 0 = [''a.o'', ''b.o'', ''d.o'', ''c.o'']
   \<and> (needs_rel diamond_needs)\<^sup>* `` {''a.o''} = {''a.o'', ''b.o'', ''c.o'', ''d.o''}
   \<and> follows_first_need diamond_needs [''a.o'', ''b.o'', ''d.o'', ''c.o''] 1"
proof -
  let ?S = "{''a.o'', ''b.o'', ''c.o'', ''d.o''}"
  have res: "generate_link_list [''a.o''] diamond_needs [] 0 = [''a.o'', ''b.o'', ''d.o'', ''c.o'']"
    by (simp add: gll_single gll_Cons2 gll_Nil needs_def diamond_needs_def)
  have a: "''a.o'' \<in> ?S" by simp
  have b: "finite ?S" by simp
  have c: "card ?S \<le> 100" by simp
  have d: "closed_under_needs diamond_needs ?S"
    by (auto simp: closed_under_needs_def needs_def diamond_needs_def)
  from link_list_depth_first [of "''a.o''" diamond_needs ?S] a b c d res
  show ?thesis by auto
qed

text \<open>
  The claim as stated fails on \<open>diamond_needs\<close>: \<open>d.o\<close>, two steps from \<open>a.o\<close>, is listed
  before \<open>c.o\<close>, one step from it. Breadth order lists \<open>c.o\<close> first.
\<close>

theorem link_list_breadth_counterexample:
  "generate_link_list [''a.o''] diamond_needs [] 0 = [''a.o'', ''b.o'', ''d.o'', ''c.o'']
   \<and> breadth_first_closure_spec diamond_needs ''a.o'' = [''a.o'', ''b.o'', ''c.o'', ''d.o'']"
  by (simp add: gll_single gll_Cons2 gll_Nil needs_def diamond_needs_def
      breadth_first_closure_spec_def Let_def)

section \<open>Properties of the passes of \<open>makemake\<close>\<close>

subsection \<open>Auxiliary facts\<close>


lemma bind_error_simps [simp]:
  "bind_error (Inl e) f = Inl e"
  "bind_error (Inr x) f = f x"
  by (simp_all add: bind_error_def)





lemma module_names_Nil [simp]: "module_names lower [] = []"
  by (simp add: module_names_def)

lemma program_names_Nil [simp]: "program_names [] = []"
  by (simp add: program_names_def)

































lemmas pass_defs =
  first_pass_def first_pass_source_def first_pass_unit_def object_file_def basename_def
  ascii_lower_def ascii_lower_char_def Let_def second_pass_def second_pass_source_def second_pass_unit_def
  register_module_def collect_used_modules_def register_subprogram_def collect_callees_def
  register_external_unit_def

subsection \<open>C8: module definitions\<close>




subsection \<open>C1: providers of external symbols\<close>

text \<open>
  Claim C1 says that after the usage pass \<open>object_file_for\<close> maps the name of every unit
  or subprogram that is an external symbol to the object file of its source, a second
  definition failing with \<open>DuplicateExternalDefinition\<close>. For a unit the code does so.
  For a subprogram it asserts and assigns under \<open>c\<close>, the loop variable of the callee
  loop before it, instead of \<open>sub.name\<close>. In \<open>project_sources\<close> with the external symbol
  \<open>foo\<close>, the subprogram \<open>foo\<close> calls \<open>bar\<close>: the pass registers \<open>bar\<close> and leaves \<open>foo\<close>
  without a provider. In \<open>unbound_sources\<close> the subprogram \<open>foo\<close> calls nothing and no
  callee loop has run yet: reading \<open>c\<close> raises \<open>NameError\<close>. The names of both projects
  are ASCII, and the passes run with \<open>ascii_lower\<close>.
\<close>

theorem external_provider_of_subprogram:
  "map_sum id object_file_for
     (bind_error (first_pass ascii_lower project_sources) (\<lambda>fp. second_pass ascii_lower [''foo''] fp project_sources))
     = Inr [(''m'', ''m.o''), (''bar'', ''m.o'')]
   \<and> bind_error (first_pass ascii_lower unbound_sources) (\<lambda>fp. second_pass ascii_lower [''foo''] fp unbound_sources)
     = Inl NameError"
  by (simp add: project_sources_def unbound_sources_def pass_defs)

subsection \<open>The start object of a link rule\<close>

text \<open>
  The link rules look the program up in \<open>object_file_for\<close>, which holds modules and
  external symbols, and not in \<open>programs\<close>. In \<open>project_sources\<close> the program \<open>p\<close> is no
  key of it, and \<open>makemake\<close> ends with \<open>KeyError\<close>; when \<open>p\<close> is also an external symbol
  its unit is registered, and the link list of \<open>p\<close> is \<open>p.o\<close> followed by the object of
  the module it uses.
\<close>

lemma makemake_link_rules:
  "makemake ascii_lower project_sources [''foo''] None = Inl KeyError
   \<and> makemake ascii_lower project_sources [''foo'', ''p''] None = Inr [(Some ''p'', [''p.o'', ''m.o''])]"
  by code_simp

section \<open>Properties of the declaration parser\<close>

subsection \<open>Auxiliary facts\<close>

lemma next_token_Cons [simp]: "next_token (tok # tokens) = Inr (tok, tokens)"
  by (simp add: next_token_def)

declare attributes.simps [simp del]







lemma summary_declared [simp]:
  "summary (declared doc tok vtype var_intent) = (tok_text tok, tok_text vtype, var_intent)"
  "summary (first_declared doc tok vtype var_intent st) = (tok_text tok, tok_text vtype, var_intent)"
  by (simp_all add: summary_def declared_def first_declared_def)






subsection \<open>C7: one variable per declared name\<close>




subsection \<open>C2: a namelist that ends in a comma\<close>

text \<open>
  Claim C2 says that a namelist statement whose member list ends with a comma is
  reported and degraded to an unhandled statement, the parse going on. In
  \<open>parse_namelist\<close> the \<open>next(tokens)\<close> after a comma has no default and is not guarded: on
  \<open>namelist / grp / a ,\<close> it raises \<open>StopIteration\<close>, which nothing up to \<open>Source.parse\<close>
  catches, and nothing is reported. The entity list of a variable declaration, parsed
  a few lines above, does guard the same \<open>next\<close>: \<open>integer :: a ,\<close> is reported through
  \<open>error_endcomma\<close> and parsed to the end.
\<close>

theorem namelist_dangling_comma:
  "parse_declaration_construct marked_docs intrinsic_types
     (map plain [''namelist'', ''/'', ''grp'', ''/'', ''a'', '','']) empty_unit = Inl StopIteration
   \<and> map_sum id reported
       (parse_declaration_construct marked_docs intrinsic_types
          (map plain [''integer'', ''::'', ''a'', '','']) empty_unit) = Inr [''endcomma'']"
  by code_simp

end
